theory Spec2Isabelle
  imports Complex_Main
begin

section \<open>Text\<close>

text \<open>
  The reminder application (\<^verbatim>\<open>app.js\<close>) and its service worker (\<^verbatim>\<open>sw.js\<close>) are
  embedded as functions over an explicit state. A JavaScript string is a \<^typ>\<open>string\<close>:
  the UTF-8 bytes of its text, so that a character outside ASCII (the pictographs of the
  status messages) is several \<^typ>\<open>char\<close>s. The operations below are the ones the
  scripts use; on ASCII text they agree with JavaScript's.
\<close>

definition dquote :: char where
  "dquote = CHR 0x22"

definition backslash :: char where
  "backslash = CHR 0x5C"

text \<open>\<^verbatim>\<open>s.startsWith(p)\<close> and \<^verbatim>\<open>s.includes(p)\<close>.\<close>

fun startsWith :: "string \<Rightarrow> string \<Rightarrow> bool" where
  "startsWith s [] = True"
| "startsWith [] (p # ps) = False"
| "startsWith (c # cs) (p # ps) = (c = p \<and> startsWith cs ps)"

fun str_includes :: "string \<Rightarrow> string \<Rightarrow> bool" where
  "str_includes [] p = (p = [])"
| "str_includes (c # cs) p = (startsWith (c # cs) p \<or> str_includes cs p)"

text \<open>
  \<^verbatim>\<open>s.trim()\<close> removes the white space and the line terminators of the language from both
  ends: the six ASCII ones and, in their UTF-8 encodings, U+00A0, U+1680, U+2000 to U+200A,
  U+2028, U+2029, U+202F, U+205F, U+3000 and U+FEFF.
\<close>

definition white_space :: "string list" where
  "white_space =
     [[CHR 0x09], [CHR 0x0A], [CHR 0x0B], [CHR 0x0C], [CHR 0x0D], [CHR 0x20],
      [CHR 0xC2, CHR 0xA0], [CHR 0xE1, CHR 0x9A, CHR 0x80],
      [CHR 0xE2, CHR 0x80, CHR 0x80], [CHR 0xE2, CHR 0x80, CHR 0x81],
      [CHR 0xE2, CHR 0x80, CHR 0x82], [CHR 0xE2, CHR 0x80, CHR 0x83],
      [CHR 0xE2, CHR 0x80, CHR 0x84], [CHR 0xE2, CHR 0x80, CHR 0x85],
      [CHR 0xE2, CHR 0x80, CHR 0x86], [CHR 0xE2, CHR 0x80, CHR 0x87],
      [CHR 0xE2, CHR 0x80, CHR 0x88], [CHR 0xE2, CHR 0x80, CHR 0x89],
      [CHR 0xE2, CHR 0x80, CHR 0x8A], [CHR 0xE2, CHR 0x80, CHR 0xA8],
      [CHR 0xE2, CHR 0x80, CHR 0xA9], [CHR 0xE2, CHR 0x80, CHR 0xAF],
      [CHR 0xE2, CHR 0x81, CHR 0x9F], [CHR 0xE3, CHR 0x80, CHR 0x80],
      [CHR 0xEF, CHR 0xBB, CHR 0xBF]]"

text \<open>The text after one of the given non-empty prefixes, if it starts with one.\<close>

fun strip_one :: "string list \<Rightarrow> string \<Rightarrow> string option" where
  "strip_one [] s = None"
| "strip_one (w # ws) s =
     (if w \<noteq> [] \<and> startsWith s w then Some (drop (length w) s) else strip_one ws s)"

lemma strip_one_length: "strip_one ws s = Some s' \<Longrightarrow> length s' < length s"
proof (induction ws)
  case Nil
  then show ?case by simp
next
  case (Cons w ws)
  have le: "length w \<le> length s" if "startsWith s w"
    using that by (induction s w rule: startsWith.induct) auto
  show ?case
  proof (cases "w \<noteq> [] \<and> startsWith s w")
    case True
    then have "0 < length w" and "length w \<le> length s"
      using le by auto
    moreover from True Cons.prems have "s' = drop (length w) s"
      by simp
    ultimately show ?thesis by (cases w) simp_all
  next
    case False
    with Cons show ?thesis by auto
  qed
qed

function strip_all :: "string list \<Rightarrow> string \<Rightarrow> string" where
  "strip_all ws s = (case strip_one ws s of None \<Rightarrow> s | Some s' \<Rightarrow> strip_all ws s')"
  by pat_completeness auto
termination
  by (relation "measure (\<lambda>(ws, s). length s)") (auto dest: strip_one_length)

declare strip_all.simps [simp del]

definition trimStart :: "string \<Rightarrow> string" where
  "trimStart s = strip_all white_space s"

definition trimEnd :: "string \<Rightarrow> string" where
  "trimEnd s = rev (strip_all (map rev white_space) (rev s))"

definition trim :: "string \<Rightarrow> string" where
  "trim s = trimEnd (trimStart s)"

text \<open>Decimal digits of a number, as \<^verbatim>\<open>String(n)\<close> and \<^verbatim>\<open>JSON.stringify(n)\<close> write an
  integer (below \<open>10\<^sup>2\<^sup>1\<close> in absolute value, which every millisecond timestamp is).\<close>

definition digit_char :: "nat \<Rightarrow> char" where
  "digit_char d = ''0123456789'' ! d"

function nat_digits :: "nat \<Rightarrow> string" where
  "nat_digits n =
     (if n < 10 then [digit_char n] else nat_digits (n div 10) @ [digit_char (n mod 10)])"
  by pat_completeness auto
termination
  by (relation "measure (\<lambda>n. n)") auto

declare nat_digits.simps [simp del]

definition Number_toString :: "int \<Rightarrow> string" where
  "Number_toString i =
     (if i < 0 then CHR ''-'' # nat_digits (nat (- i)) else nat_digits (nat i))"

section \<open>JSON text of the reminder set\<close>

text \<open>
  \<^verbatim>\<open>JSON.stringify\<close> on a string: the quotation mark and the reverse solidus are escaped,
  the control characters below \<open>0x20\<close> are written \<^verbatim>\<open>\b \t \n \f \r\<close> or
  \<^verbatim>\<open>\u00xx\<close> (lower-case hexadecimal), every other character is copied.
\<close>

definition hex_char :: "nat \<Rightarrow> char" where
  "hex_char d = ''0123456789abcdef'' ! d"

definition JSON_escape :: "char \<Rightarrow> string" where
  "JSON_escape c =
     (if c = dquote then [backslash, dquote]
      else if c = backslash then [backslash, backslash]
      else if c = CHR 0x08 then [backslash, CHR ''b'']
      else if c = CHR 0x0C then [backslash, CHR ''f'']
      else if c = CHR 0x0A then [backslash, CHR ''n'']
      else if c = CHR 0x0D then [backslash, CHR ''r'']
      else if c = CHR 0x09 then [backslash, CHR ''t'']
      else if (of_char c :: nat) < 32
        then [backslash, CHR ''u'', CHR ''0'', CHR ''0'',
              hex_char ((of_char c :: nat) div 16), hex_char ((of_char c :: nat) mod 16)]
      else [c])"

definition JSON_quote :: "string \<Rightarrow> string" where
  "JSON_quote s = dquote # concat (map JSON_escape s) @ [dquote]"

text \<open>
  A reminder, as \<^verbatim>\<open>addReminder\<close> creates it and \<^verbatim>\<open>saveEdit\<close> updates it:
  \<^verbatim>\<open>{ id, dateTime, note, repeat, created }\<close>, with \<^verbatim>\<open>modified\<close> added by the first
  edit. The key \<^verbatim>\<open>id\<close> is the field \<open>ident\<close> and \<^verbatim>\<open>note\<close> is \<open>note_text\<close>.
\<close>

record reminder =
  ident :: int
  dateTime :: string
  note_text :: string
  repeat :: string
  created :: string
  modified :: "string option"

definition JSON_member :: "string \<Rightarrow> string \<Rightarrow> string" where
  "JSON_member k v = JSON_quote k @ CHR '':'' # v"

definition JSON_stringify_reminder :: "reminder \<Rightarrow> string" where
  "JSON_stringify_reminder r =
     CHR ''{'' # JSON_member ''id'' (Number_toString (ident r))
     @ CHR '','' # JSON_member ''dateTime'' (JSON_quote (dateTime r))
     @ CHR '','' # JSON_member ''note'' (JSON_quote (note_text r))
     @ CHR '','' # JSON_member ''repeat'' (JSON_quote (repeat r))
     @ CHR '','' # JSON_member ''created'' (JSON_quote (created r))
     @ (case modified r of
          None \<Rightarrow> []
        | Some m \<Rightarrow> CHR '','' # JSON_member ''modified'' (JSON_quote m))
     @ ''}''"

fun JSON_elements :: "reminder list \<Rightarrow> string" where
  "JSON_elements [] = []"
| "JSON_elements [r] = JSON_stringify_reminder r"
| "JSON_elements (r # r' # rs) = JSON_stringify_reminder r @ CHR '','' # JSON_elements (r' # rs)"

definition JSON_stringify :: "reminder list \<Rightarrow> string" where
  "JSON_stringify rs = CHR ''['' # JSON_elements rs @ '']''"

text \<open>
  \<^verbatim>\<open>JSON.parse\<close>, at the type of the reminder set. The state of the model holds a list
  of reminders, so the reading is defined on the texts that \<^verbatim>\<open>JSON.stringify\<close> writes for
  such a list (members in the order of creation, no white space between tokens), with
  every escape of the JSON grammar read in a string (a \<^verbatim>\<open>\uXXXX\<close> escape when it names an
  ASCII character). On those texts it is the platform's function. Every other text is
  taken as damaged and read as a syntax error (\<open>None\<close>); this is narrower than the
  platform, which also reads other layouts and other JSON values, values that the typed
  state cannot hold. The storage key is written by this script only, through
  \<^verbatim>\<open>JSON.stringify\<close>.
\<close>

definition is_digit :: "char \<Rightarrow> bool" where
  "is_digit c = (c \<in> set ''0123456789'')"

definition digit_val :: "char \<Rightarrow> nat" where
  "digit_val c = of_char c - 48"

definition parse_nat :: "string \<Rightarrow> (nat \<times> string) option" where
  "parse_nat s =
     (let ds = takeWhile is_digit s
      in if ds = [] \<or> (hd ds = CHR ''0'' \<and> length ds > 1) then None
         else Some (foldl (\<lambda>a c. 10 * a + digit_val c) 0 ds, dropWhile is_digit s))"

definition parse_int :: "string \<Rightarrow> (int \<times> string) option" where
  "parse_int s =
     (case s of
        [] \<Rightarrow> None
      | c # cs \<Rightarrow>
          if c = CHR ''-''
          then (case parse_nat cs of None \<Rightarrow> None | Some (n, rest) \<Rightarrow> Some (- int n, rest))
          else (case parse_nat s of None \<Rightarrow> None | Some (n, rest) \<Rightarrow> Some (int n, rest)))"

definition expect :: "string \<Rightarrow> string \<Rightarrow> string option" where
  "expect p s = (if startsWith s p then Some (drop (length p) s) else None)"

definition hex_val :: "char \<Rightarrow> nat option" where
  "hex_val c =
     (if is_digit c then Some (digit_val c)
      else if c \<in> set ''abcdef'' then Some (of_char c - 87)
      else if c \<in> set ''ABCDEF'' then Some (of_char c - 55)
      else None)"

text \<open>The character an escape stands for, read after the reverse solidus.\<close>

definition unescape :: "string \<Rightarrow> (char \<times> string) option" where
  "unescape s =
     (case s of
        [] \<Rightarrow> None
      | e # cs \<Rightarrow>
          if e = dquote then Some (dquote, cs)
          else if e = backslash then Some (backslash, cs)
          else if e = CHR ''/'' then Some (CHR ''/'', cs)
          else if e = CHR ''b'' then Some (CHR 0x08, cs)
          else if e = CHR ''f'' then Some (CHR 0x0C, cs)
          else if e = CHR ''n'' then Some (CHR 0x0A, cs)
          else if e = CHR ''r'' then Some (CHR 0x0D, cs)
          else if e = CHR ''t'' then Some (CHR 0x09, cs)
          else if e = CHR ''u'' then
            (case cs of
               h1 # h2 # h3 # h4 # rest \<Rightarrow>
                 (case (hex_val h1, hex_val h2, hex_val h3, hex_val h4) of
                    (Some a, Some b, Some c, Some d) \<Rightarrow>
                      (let n = ((a * 16 + b) * 16 + c) * 16 + d
                       in if n < 128 then Some (char_of n, rest) else None)
                  | _ \<Rightarrow> None)
             | _ \<Rightarrow> None)
          else None)"

lemma unescape_length: "unescape s = Some (d, rest) \<Longrightarrow> length rest < length s"
  by (auto simp: unescape_def Let_def split: list.splits if_splits option.splits)

text \<open>The characters of a string up to its closing quotation mark.\<close>

function parse_chars :: "string \<Rightarrow> (string \<times> string) option" where
  "parse_chars [] = None"
| "parse_chars (c # cs) =
     (if c = dquote then Some ([], cs)
      else if c = backslash then
        (case unescape cs of
           None \<Rightarrow> None
         | Some (d, rest) \<Rightarrow>
             (case parse_chars rest of
                None \<Rightarrow> None
              | Some (str, rest') \<Rightarrow> Some (d # str, rest')))
      else if (of_char c :: nat) < 32 then None
      else (case parse_chars cs of
              None \<Rightarrow> None
            | Some (str, rest) \<Rightarrow> Some (c # str, rest)))"
  by pat_completeness auto
termination
  by (relation "measure length") (auto dest: unescape_length)

definition parse_string :: "string \<Rightarrow> (string \<times> string) option" where
  "parse_string s =
     (case s of [] \<Rightarrow> None | c # cs \<Rightarrow> if c = dquote then parse_chars cs else None)"

text \<open>A member \<^verbatim>\<open>"key":"text"\<close> after the given opening (a brace or a comma).\<close>

definition parse_member :: "char \<Rightarrow> string \<Rightarrow> string \<Rightarrow> (string \<times> string) option" where
  "parse_member opening k s =
     (case expect (opening # JSON_quote k @ '':'') s of
        None \<Rightarrow> None
      | Some s' \<Rightarrow> parse_string s')"

definition parse_reminder :: "string \<Rightarrow> (reminder \<times> string) option" where
  "parse_reminder s =
     (case expect (CHR ''{'' # JSON_quote ''id'' @ '':'') s of None \<Rightarrow> None | Some s1 \<Rightarrow>
      case parse_int s1 of None \<Rightarrow> None | Some (i, s2) \<Rightarrow>
      case parse_member CHR '','' ''dateTime'' s2 of None \<Rightarrow> None | Some (d, s3) \<Rightarrow>
      case parse_member CHR '','' ''note'' s3 of None \<Rightarrow> None | Some (n, s4) \<Rightarrow>
      case parse_member CHR '','' ''repeat'' s4 of None \<Rightarrow> None | Some (p, s5) \<Rightarrow>
      case parse_member CHR '','' ''created'' s5 of None \<Rightarrow> None | Some (c, s6) \<Rightarrow>
      let (m, s7) = (case parse_member CHR '','' ''modified'' s6 of
                       None \<Rightarrow> (None, s6)
                     | Some (m, s7) \<Rightarrow> (Some m, s7))
      in case expect ''}'' s7 of
           None \<Rightarrow> None
         | Some s8 \<Rightarrow>
             Some (\<lparr>ident = i, dateTime = d, note_text = n, repeat = p, created = c,
                    modified = m\<rparr>, s8))"

lemma expect_length: "expect p s = Some rest \<Longrightarrow> length rest + length p = length s"
proof (induction s p arbitrary: rest rule: startsWith.induct)
  case (1 s)
  then show ?case by (simp add: expect_def)
next
  case (2 p ps)
  then show ?case by (simp add: expect_def)
next
  case (3 c cs p ps)
  then show ?case by (auto simp: expect_def split: if_splits)
qed

lemma parse_chars_length: "parse_chars s = Some (x, rest) \<Longrightarrow> length rest < length s"
proof (induction s arbitrary: x rest rule: parse_chars.induct)
  case 1
  then show ?case by simp
next
  case (2 c cs)
  then show ?case
    by (fastforce split: if_splits option.splits dest: unescape_length)
qed

lemma parse_member_length:
  "parse_member c k s = Some (x, rest) \<Longrightarrow> length rest < length s"
  by (auto simp: parse_member_def parse_string_def
      split: option.splits list.splits if_splits
      dest!: expect_length parse_chars_length)

lemma parse_nat_length: "parse_nat s = Some (n, rest) \<Longrightarrow> length rest \<le> length s"
  by (auto simp: parse_nat_def Let_def length_dropWhile_le split: if_splits)

lemma parse_int_length: "parse_int s = Some (i, rest) \<Longrightarrow> length rest \<le> length s"
  by (auto simp: parse_int_def split: list.splits if_splits option.splits
      dest!: parse_nat_length)

lemma parse_reminder_length:
  "parse_reminder s = Some (r, rest) \<Longrightarrow> length rest < length s"
  unfolding parse_reminder_def
  by (auto split: option.splits prod.splits
      dest!: expect_length parse_int_length parse_member_length)

text \<open>The elements of a non-empty array, up to its closing bracket.\<close>

function parse_elements :: "string \<Rightarrow> (reminder list \<times> string) option" where
  "parse_elements s =
     (case parse_reminder s of
        None \<Rightarrow> None
      | Some (r, rest) \<Rightarrow>
          (case rest of
             [] \<Rightarrow> None
           | c # cs \<Rightarrow>
               if c = CHR '']'' then Some ([r], cs)
               else if c = CHR '','' then
                 (case parse_elements cs of
                    None \<Rightarrow> None
                  | Some (rs, rest') \<Rightarrow> Some (r # rs, rest'))
               else None))"
  by pat_completeness auto
termination
  by (relation "measure length") (auto dest!: parse_reminder_length)

declare parse_elements.simps [simp del]

definition JSON_parse :: "string \<Rightarrow> reminder list option" where
  "JSON_parse s =
     (case s of
        [] \<Rightarrow> None
      | c # cs \<Rightarrow>
          if c \<noteq> CHR ''['' then None
          else (case cs of
                  [] \<Rightarrow> None
                | d # ds \<Rightarrow>
                    if d = CHR '']'' then (if ds = [] then Some [] else None)
                    else (case parse_elements cs of
                            Some (rs, []) \<Rightarrow> Some rs
                          | _ \<Rightarrow> None)))"

text \<open>
  A number ends where the text ends or a character that is no digit follows: the condition
  under which the reading of a written number stops at its last digit.
\<close>

definition ends_number :: "string \<Rightarrow> bool" where
  "ends_number rest = (case rest of [] \<Rightarrow> True | c # cs \<Rightarrow> \<not> is_digit c)"

section \<open>Platform state: storage, permission, network\<close>

text \<open>
  \<^verbatim>\<open>localStorage\<close> is a list of key/value pairs under a quota, counted in characters of
  keys and values. \<^verbatim>\<open>setItem\<close> raises (\<open>None\<close>) when the store would exceed the quota and
  leaves the store as it was; both writers of the script catch that.
\<close>

type_synonym storage = "(string \<times> string) list"

definition getItem :: "storage \<Rightarrow> string \<Rightarrow> string option" where
  "getItem st k = map_of st k"

fun put :: "'k \<Rightarrow> 'v \<Rightarrow> ('k \<times> 'v) list \<Rightarrow> ('k \<times> 'v) list" where
  "put k v [] = [(k, v)]"
| "put k v ((k', v') # st) = (if k' = k then (k, v) # st else (k', v') # put k v st)"

definition storage_size :: "storage \<Rightarrow> nat" where
  "storage_size st = sum_list (map (\<lambda>(k, v). length k + length v) st)"

definition setItem :: "nat \<Rightarrow> string \<Rightarrow> string \<Rightarrow> storage \<Rightarrow> storage option" where
  "setItem quota k v st =
     (if storage_size (put k v st) \<le> quota then Some (put k v st) else None)"

datatype permission = Default | Granted | Denied

text \<open>A \<^verbatim>\<open>fetch\<close> call, as issued (method, URL, body), and a call of
  \<^verbatim>\<open>pushManager.subscribe\<close> with the bytes of the application server key.\<close>

datatype request = Fetch string string "string option" | PushManagerSubscribe "nat list"

text \<open>How a \<^verbatim>\<open>fetch\<close> promise settles: rejected with a message, or fulfilled with a
  response of some status; \<^verbatim>\<open>response.ok\<close> is a status from 200 to 299.\<close>

datatype fetch_result = NetworkError string | HttpResponse nat

definition ok :: "nat \<Rightarrow> bool" where
  "ok status = (200 \<le> status \<and> status \<le> 299)"

text \<open>A parsed JSON value, as \<^verbatim>\<open>response.json()\<close> and \<^verbatim>\<open>event.data.json()\<close> return one.\<close>

datatype json =
    JNull
  | JBool bool
  | JNum int
  | JStr string
  | JArr "json list"
  | JObj "(string \<times> json) list"

section \<open>State of the application\<close>

text \<open>
  Who awaits an asynchronous call: the start-up handler (\<open>Init\<close>), which goes on after
  \<^verbatim>\<open>await connectToServer()\<close>, or a caller with nothing left to do.
\<close>

datatype waiter = Detached | Init

text \<open>The suspension points (\<^verbatim>\<open>await\<close>) of the asynchronous functions.\<close>

datatype cont =
    SwRegister
  | ProbeFetch waiter
  | ProbeJson waiter
  | SyncFetch waiter
  | SyncJson waiter
  | PermissionPrompt
  | VapidFetch
  | VapidJson
  | PushSubscribe
  | SubscribeFetch
  | SubscribeJson

text \<open>
  The errors that the engine raises by itself where the script runs: reading a property
  of \<^verbatim>\<open>null\<close> or \<^verbatim>\<open>undefined\<close>, \<^verbatim>\<open>atob\<close> on a text that is not base64, and
  \<^verbatim>\<open>setItem\<close> beyond the quota. Their messages are the engine's and a parameter of the
  platform (\<open>engineMessage\<close> below).
\<close>

datatype engine_error = NullRead | NotBase64 | QuotaExceeded

text \<open>
  The globals of \<^verbatim>\<open>app.js\<close> (\<^verbatim>\<open>swRegistration\<close> is \<open>True\<close> once it holds a
  registration), the platform state the script reads and writes, the elements of the page
  it updates, and what it has done to the outside: the \<^verbatim>\<open>fetch\<close> calls issued, the
  \<^verbatim>\<open>alert\<close> and \<^verbatim>\<open>confirm\<close> dialogs shown, and the suspended calls not yet resumed.
  The list markup that \<^verbatim>\<open>renderReminders\<close> writes is a projection of \<open>reminders\<close> and
  is not kept.
\<close>

record app =
  reminders :: "reminder list"
  isOnline :: bool
  editingId :: "int option"
  syncInProgress :: bool
  swRegistration :: bool
  notificationsEnabled :: bool
  subscriptionActive :: bool
  localStorage :: storage
  storageQuota :: nat
  notificationPermission :: permission
  statusMessage :: string
  statusType :: string
  notificationSetupShown :: bool
  notificationStatusShown :: bool
  notificationStatusClass :: string
  notificationStatusText :: string
  btnDisabled :: bool
  btnText :: string
  editFormShown :: bool
  clickListener :: bool
  requests :: "request list"
  dialogs :: "string list"
  pending :: "cont list"
  engineMessage :: "engine_error \<Rightarrow> string"

definition serverUrl :: string where
  "serverUrl = ''https://192.168.0.147:3001''"

section \<open>Local reminder store\<close>

text \<open>\<^verbatim>\<open>saveLocalReminders\<close>: a failed write is caught and logged.\<close>

definition saveLocalReminders :: "app \<Rightarrow> app" where
  "saveLocalReminders s =
     (case setItem (storageQuota s) ''simple_reminders'' (JSON_stringify (reminders s))
             (localStorage s) of
        Some st \<Rightarrow> s\<lparr>localStorage := st\<rparr>
      | None \<Rightarrow> s)"

section \<open>Retention sweep\<close>

text \<open>
  \<^verbatim>\<open>new Date(text).getTime()\<close> is a parameter \<open>D\<close> of the model: the milliseconds of a
  date the platform can read, \<open>None\<close> for an invalid date (\<^verbatim>\<open>NaN\<close>, which every
  comparison answers with false). The difference of two timestamps is an integer, and its
  quotient by \<open>3600000\<close> exceeds 24 in double precision exactly when it does in the
  rationals, so \<open>hoursAgo\<close> is a rational.
\<close>

definition hoursAgo :: "int \<Rightarrow> int \<Rightarrow> rat" where
  "hoursAgo now t = of_int (now - t) / of_int (1000 * 60 * 60)"

definition sweep_keeps :: "(string \<Rightarrow> int option) \<Rightarrow> int \<Rightarrow> reminder \<Rightarrow> bool" where
  "sweep_keeps D now r =
     (case D (dateTime r) of
        None \<Rightarrow> True
      | Some t \<Rightarrow> if repeat r = ''once'' \<and> hoursAgo now t > 24 then False else True)"

definition cleanupPastReminders :: "(string \<Rightarrow> int option) \<Rightarrow> int \<Rightarrow> app \<Rightarrow> app" where
  "cleanupPastReminders D now s =
     (let beforeCount = length (reminders s);
          s' = s\<lparr>reminders := filter (sweep_keeps D now) (reminders s)\<rparr>;
          afterCount = length (reminders s')
      in if beforeCount \<noteq> afterCount then saveLocalReminders s' else s')"

text \<open>
  \<^verbatim>\<open>loadLocalReminders\<close>: nothing is read when the key is absent or holds the empty text
  (both falsy); a text that does not parse resets the set to empty.
\<close>

definition loadLocalReminders :: "app \<Rightarrow> app" where
  "loadLocalReminders s =
     (case getItem (localStorage s) ''simple_reminders'' of
        None \<Rightarrow> s
      | Some saved \<Rightarrow>
          if saved = [] then s
          else (case JSON_parse saved of
                  Some rs \<Rightarrow> s\<lparr>reminders := rs\<rparr>
                | None \<Rightarrow> s\<lparr>reminders := []\<rparr>))"

section \<open>Status line and notification panel\<close>

text \<open>The pictographs that open the messages, as UTF-8.\<close>

definition sym_connecting :: string where
  "sym_connecting = [CHR 0xF0, CHR 0x9F, CHR 0x93, CHR 0xA1]"

definition sym_green :: string where
  "sym_green = [CHR 0xF0, CHR 0x9F, CHR 0x9F, CHR 0xA2]"

definition sym_red :: string where
  "sym_red = [CHR 0xF0, CHR 0x9F, CHR 0x94, CHR 0xB4]"

definition sym_outbox :: string where
  "sym_outbox = [CHR 0xF0, CHR 0x9F, CHR 0x93, CHR 0xA4]"

definition sym_warning :: string where
  "sym_warning = [CHR 0xE2, CHR 0x9A, CHR 0xA0, CHR 0xEF, CHR 0xB8, CHR 0x8F]"

definition sym_cross :: string where
  "sym_cross = [CHR 0xE2, CHR 0x9D, CHR 0x8C]"

definition sym_check :: string where
  "sym_check = [CHR 0xE2, CHR 0x9C, CHR 0x85]"

definition sym_bell :: string where
  "sym_bell = [CHR 0xF0, CHR 0x9F, CHR 0x94, CHR 0x94]"

definition sym_arrows :: string where
  "sym_arrows = [CHR 0xF0, CHR 0x9F, CHR 0x94, CHR 0x84]"

definition updateStatus :: "string \<Rightarrow> string \<Rightarrow> app \<Rightarrow> app" where
  "updateStatus message type s = s\<lparr>statusMessage := message, statusType := type\<rparr>"

definition showNotificationError :: "string \<Rightarrow> app \<Rightarrow> app" where
  "showNotificationError message s =
     s\<lparr>notificationSetupShown := False,
       notificationStatusShown := True,
       notificationStatusClass := ''notification-status error'',
       notificationStatusText := sym_cross @ '' '' @ message\<rparr>"

definition updateNotificationUI :: "app \<Rightarrow> app" where
  "updateNotificationUI s =
     (let savedState = getItem (localStorage s) ''notifications_enabled'';
          permission = notificationPermission s
      in if permission = Granted \<and> savedState = Some ''true'' \<and> isOnline s then
           s\<lparr>notificationSetupShown := False,
             notificationStatusShown := True,
             notificationStatusClass := ''notification-status'',
             notificationStatusText := sym_check @ '' Notifications enabled and ready!'',
             notificationsEnabled := True\<rparr>
         else if permission = Denied then
           s\<lparr>notificationSetupShown := False,
             notificationStatusShown := True,
             notificationStatusClass := ''notification-status error'',
             notificationStatusText :=
               sym_cross @ '' Notifications blocked. Please enable in browser settings.''\<rparr>
         else if \<not> isOnline s then
           s\<lparr>notificationSetupShown := False,
             notificationStatusShown := True,
             notificationStatusClass := ''notification-status error'',
             notificationStatusText :=
               sym_warning @ '' Connect to server to enable notifications''\<rparr>
         else
           s\<lparr>notificationSetupShown := True,
             notificationStatusShown := False,
             btnDisabled := False,
             btnText := sym_bell @ '' Enable Notifications''\<rparr>)"

section \<open>Asynchronous calls\<close>

text \<open>
  An asynchronous function runs up to its next \<^verbatim>\<open>await\<close> in one piece; the call is then
  recorded in \<open>pending\<close> and goes on when the awaited promise settles. \<open>suspend\<close> and
  \<open>fetch\<close> record the suspension and the request.
\<close>

definition suspend :: "cont \<Rightarrow> app \<Rightarrow> app" where
  "suspend c s = s\<lparr>pending := pending s @ [c]\<rparr>"

definition fetch :: "string \<Rightarrow> string \<Rightarrow> string option \<Rightarrow> app \<Rightarrow> app" where
  "fetch method url body s = s\<lparr>requests := requests s @ [Fetch method url body]\<rparr>"

text \<open>
  The rest of the start-up handler after \<^verbatim>\<open>await connectToServer()\<close>: the click listener of
  the enable button and \<^verbatim>\<open>updateNotificationUI\<close>. \<open>finish w\<close> resumes the caller \<open>w\<close>
  that awaited a call when the call returns.
\<close>

definition init_tail :: "app \<Rightarrow> app" where
  "init_tail s = updateNotificationUI (s\<lparr>clickListener := True\<rparr>)"

fun finish :: "waiter \<Rightarrow> app \<Rightarrow> app" where
  "finish Detached s = s"
| "finish Init s = init_tail s"

subsection \<open>Sync coordinator\<close>

definition sync_body :: "reminder list \<Rightarrow> string" where
  "sync_body rs = CHR ''{'' # JSON_member ''reminders'' (JSON_stringify rs) @ ''}''"

text \<open>\<^verbatim>\<open>syncWithServer\<close>, from the call to the first \<^verbatim>\<open>await\<close>.\<close>

definition syncWithServer :: "waiter \<Rightarrow> app \<Rightarrow> app" where
  "syncWithServer w s =
     (if \<not> isOnline s \<or> syncInProgress s then finish w s
      else suspend (SyncFetch w)
             (fetch ''POST'' (serverUrl @ ''/sync-reminders'') (Some (sync_body (reminders s)))
               (updateStatus (sym_outbox @ '' Syncing with server...'') ''syncing''
                 (s\<lparr>syncInProgress := True\<rparr>))))"

text \<open>Its \<^verbatim>\<open>catch\<close> and \<^verbatim>\<open>finally\<close> blocks.\<close>

definition sync_catch :: "string \<Rightarrow> app \<Rightarrow> app" where
  "sync_catch error s =
     updateNotificationUI
       ((updateStatus (sym_warning @ '' Sync failed - Working offline'') ''offline'' s)
          \<lparr>isOnline := False\<rparr>)"

definition sync_finally :: "app \<Rightarrow> app" where
  "sync_finally s = s\<lparr>syncInProgress := False\<rparr>"

text \<open>When \<^verbatim>\<open>fetch\<close> has settled: a rejection and a response that is not \<^verbatim>\<open>ok\<close> are
  raised into the \<^verbatim>\<open>catch\<close> block.\<close>

definition syncWithServer_fetched :: "waiter \<Rightarrow> fetch_result \<Rightarrow> app \<Rightarrow> app" where
  "syncWithServer_fetched w r s =
     (case r of
        NetworkError message \<Rightarrow> finish w (sync_finally (sync_catch message s))
      | HttpResponse status \<Rightarrow>
          if ok status then suspend (SyncJson w) s
          else finish w (sync_finally (sync_catch (''Sync failed: '' @ nat_digits status) s)))"

text \<open>When \<^verbatim>\<open>response.json()\<close> has settled: \<^verbatim>\<open>result.message\<close> is read for the log,
  which raises a type error on \<^verbatim>\<open>null\<close>.\<close>

definition syncWithServer_jsoned :: "waiter \<Rightarrow> string + json \<Rightarrow> app \<Rightarrow> app" where
  "syncWithServer_jsoned w j s =
     (case j of
        Inl message \<Rightarrow> finish w (sync_finally (sync_catch message s))
      | Inr result \<Rightarrow>
          if result = JNull
          then finish w (sync_finally (sync_catch (engineMessage s NullRead) s))
          else finish w (sync_finally
                 (updateStatus (sym_green @ '' Online - Synced successfully'') ''online'' s)))"

subsection \<open>Connectivity monitor\<close>

definition connectToServer :: "waiter \<Rightarrow> app \<Rightarrow> app" where
  "connectToServer w s =
     suspend (ProbeFetch w)
       (fetch ''GET'' serverUrl None
         (updateStatus (sym_connecting @ '' Connecting...'') ''offline'' s))"

definition connect_catch :: "string \<Rightarrow> app \<Rightarrow> app" where
  "connect_catch error s =
     updateNotificationUI
       (updateStatus (sym_red @ '' Offline - Working locally'') ''offline''
         (s\<lparr>isOnline := False\<rparr>))"

definition connectToServer_fetched :: "waiter \<Rightarrow> fetch_result \<Rightarrow> app \<Rightarrow> app" where
  "connectToServer_fetched w r s =
     (case r of
        NetworkError message \<Rightarrow> finish w (connect_catch message s)
      | HttpResponse status \<Rightarrow>
          if ok status then suspend (ProbeJson w) s
          else finish w (connect_catch (''Server returned '' @ nat_digits status) s))"

text \<open>When the body has been read: the state goes online, then \<^verbatim>\<open>data.message\<close> is read
  for the log (a type error on \<^verbatim>\<open>null\<close>, raised into the \<^verbatim>\<open>catch\<close> block), then the
  panel is updated and the sync is called.\<close>

definition connectToServer_jsoned :: "waiter \<Rightarrow> string + json \<Rightarrow> app \<Rightarrow> app" where
  "connectToServer_jsoned w j s =
     (case j of
        Inl message \<Rightarrow> finish w (connect_catch message s)
      | Inr data \<Rightarrow>
          (let s1 = updateStatus (sym_green @ '' Online - Server connected'') ''online''
                      (s\<lparr>isOnline := True\<rparr>)
           in if data = JNull then finish w (connect_catch (engineMessage s1 NullRead) s1)
              else syncWithServer w (updateNotificationUI s1)))"

text \<open>The \<^verbatim>\<open>offline\<close> event of the window.\<close>

definition offline_event :: "app \<Rightarrow> app" where
  "offline_event s =
     updateNotificationUI
       (updateStatus (sym_red @ '' Offline - Working locally'') ''offline''
         (s\<lparr>isOnline := False\<rparr>))"

text \<open>The 30 second timer, the \<^verbatim>\<open>online\<close> event and \<^verbatim>\<open>visibilitychange\<close>.\<close>

definition retry_timer :: "app \<Rightarrow> app" where
  "retry_timer s = (if \<not> isOnline s then connectToServer Detached s else s)"

definition online_event :: "app \<Rightarrow> app" where
  "online_event s = connectToServer Detached s"

definition visibilitychange :: "bool \<Rightarrow> app \<Rightarrow> app" where
  "visibilitychange hidden s =
     (if \<not> hidden \<and> isOnline s \<and> \<not> syncInProgress s then syncWithServer Detached s else s)"

subsection \<open>Start-up\<close>

text \<open>
  The \<^verbatim>\<open>DOMContentLoaded\<close> handler: the stored reminders are loaded, the service worker is
  registered when the platform has one, then the server is probed. \<^verbatim>\<open>swRegistration.ready\<close>
  is not a promise, so awaiting it resumes at once.
\<close>

definition startup :: "bool \<Rightarrow> app \<Rightarrow> app" where
  "startup serviceWorkerInNavigator s =
     (let s1 = loadLocalReminders s
      in if serviceWorkerInNavigator then suspend SwRegister s1
         else connectToServer Init
                (showNotificationError ''Service Workers not supported in this browser'' s1))"

definition startup_registered :: "string + unit \<Rightarrow> app \<Rightarrow> app" where
  "startup_registered r s =
     (case r of
        Inl message \<Rightarrow>
          connectToServer Init (showNotificationError ''Service Worker registration failed'' s)
      | Inr _ \<Rightarrow> connectToServer Init (s\<lparr>swRegistration := True\<rparr>))"

section \<open>Reminder operations\<close>

text \<open>
  What a handler reads from outside the state is its input: the fields of the form, the
  clock (\<^verbatim>\<open>new Date()\<close>, \<^verbatim>\<open>Date.now()\<close> and \<^verbatim>\<open>new Date().toISOString()\<close> are three
  readings), and the answer to a \<^verbatim>\<open>confirm\<close> dialog if one is shown.
\<close>

record add_input =
  add_dateTime :: string
  add_note :: string
  add_repeat :: string
  add_now :: int
  add_confirm :: bool
  add_id :: int
  add_created :: string

record edit_input =
  edit_dateTime :: string
  edit_note :: string
  edit_repeat :: string
  edit_modified :: string

fun findIndex :: "('a \<Rightarrow> bool) \<Rightarrow> 'a list \<Rightarrow> nat option" where
  "findIndex P [] = None"
| "findIndex P (x # xs) =
     (if P x then Some 0 else (case findIndex P xs of None \<Rightarrow> None | Some i \<Rightarrow> Some (Suc i)))"

definition alert :: "string \<Rightarrow> app \<Rightarrow> app" where
  "alert message s = s\<lparr>dialogs := dialogs s @ [message]\<rparr>"

definition addReminder :: "(string \<Rightarrow> int option) \<Rightarrow> add_input \<Rightarrow> app \<Rightarrow> app" where
  "addReminder D i s =
     (let note = trim (add_note i)
      in if add_dateTime i = [] then alert ''Please select a date and time'' s
         else if note = [] then alert ''Please enter a reminder note'' s
         else
           (let past = (case D (add_dateTime i) of None \<Rightarrow> False | Some t \<Rightarrow> t \<le> add_now i);
                s1 = (if past then alert ''This time is in the past. Add anyway?'' s else s)
            in if past \<and> \<not> add_confirm i then s1
               else
                 (let reminder = \<lparr>ident = add_id i, dateTime = add_dateTime i,
                                   note_text = note, repeat = add_repeat i,
                                   created = add_created i, modified = None\<rparr>;
                      s2 = saveLocalReminders (s1\<lparr>reminders := reminders s1 @ [reminder]\<rparr>)
                  in if isOnline s2 then syncWithServer Detached s2 else s2)))"

definition editReminder :: "int \<Rightarrow> app \<Rightarrow> app" where
  "editReminder i s =
     (case find (\<lambda>r. ident r = i) (reminders s) of
        None \<Rightarrow> s
      | Some reminder \<Rightarrow> s\<lparr>editingId := Some i, editFormShown := True\<rparr>)"

definition cancelEdit :: "app \<Rightarrow> app" where
  "cancelEdit s = s\<lparr>editingId := None, editFormShown := False\<rparr>"

definition saveEdit :: "edit_input \<Rightarrow> app \<Rightarrow> app" where
  "saveEdit i s =
     (let note = trim (edit_note i)
      in if edit_dateTime i = [] \<or> note = []
         then alert ''Please fill in both date/time and note'' s
         else
           (case findIndex (\<lambda>r. Some (ident r) = editingId s) (reminders s) of
              None \<Rightarrow> s
            | Some reminderIndex \<Rightarrow>
                (let updated = (reminders s ! reminderIndex)
                                 \<lparr>dateTime := edit_dateTime i, note_text := note,
                                   repeat := edit_repeat i,
                                   modified := Some (edit_modified i)\<rparr>;
                     s1 = s\<lparr>reminders := (reminders s)[reminderIndex := updated]\<rparr>;
                     s2 = cancelEdit (saveLocalReminders s1)
                 in if isOnline s2 then syncWithServer Detached s2 else s2)))"

definition deleteReminder :: "int \<Rightarrow> bool \<Rightarrow> app \<Rightarrow> app" where
  "deleteReminder i answer s =
     (case find (\<lambda>r. ident r = i) (reminders s) of
        None \<Rightarrow> s
      | Some reminder \<Rightarrow>
          (let s1 = alert (''Delete reminder: '' @ dquote # note_text reminder @ dquote # ''?'') s
           in if answer then
                (let s2 = saveLocalReminders
                            (s1\<lparr>reminders := filter (\<lambda>r. ident r \<noteq> i) (reminders s1)\<rparr>)
                 in if isOnline s2 then syncWithServer Detached s2 else s2)
              else s1))"

section \<open>Notification subscription\<close>

text \<open>
  \<^verbatim>\<open>urlBase64ToUint8Array\<close>: the key is padded to a multiple of four characters, brought
  from the URL alphabet to the standard one and decoded by \<^verbatim>\<open>atob\<close>, which raises
  (\<open>None\<close>) on a text that is not base64. The result is the list of the bytes.
\<close>

definition b64_alphabet :: string where
  "b64_alphabet = ''ABCDEFGHIJKLMNOPQRSTUVWXYZabcdefghijklmnopqrstuvwxyz0123456789+/''"

fun index_of :: "char \<Rightarrow> string \<Rightarrow> nat option" where
  "index_of c [] = None"
| "index_of c (x # xs) =
     (if x = c then Some 0 else (case index_of c xs of None \<Rightarrow> None | Some i \<Rightarrow> Some (Suc i)))"

fun b64_values :: "string \<Rightarrow> nat list option" where
  "b64_values [] = Some []"
| "b64_values (c # cs) =
     (case index_of c b64_alphabet of
        None \<Rightarrow> None
      | Some v \<Rightarrow> (case b64_values cs of None \<Rightarrow> None | Some vs \<Rightarrow> Some (v # vs)))"

fun b64_bytes :: "nat list \<Rightarrow> nat list" where
  "b64_bytes (a # b # c # d # rest) =
     (let n = ((a * 64 + b) * 64 + c) * 64 + d
      in (n div 65536) # (n div 256 mod 256) # (n mod 256) # b64_bytes rest)"
| "b64_bytes [a, b, c] = (let n = ((a * 64 + b) * 64 + c) div 4 in [n div 256, n mod 256])"
| "b64_bytes [a, b] = [(a * 64 + b) div 16]"
| "b64_bytes [a] = []"
| "b64_bytes [] = []"

definition strip_equals :: "string \<Rightarrow> string" where
  "strip_equals s = (if s \<noteq> [] \<and> last s = CHR ''='' then butlast s else s)"

definition atob :: "string \<Rightarrow> nat list option" where
  "atob data =
     (let d1 = filter (\<lambda>c. c \<notin> set [CHR 0x09, CHR 0x0A, CHR 0x0C, CHR 0x0D, CHR 0x20]) data;
          d2 = (if length d1 mod 4 = 0 then strip_equals (strip_equals d1) else d1)
      in if length d2 mod 4 = 1 then None
         else (case b64_values d2 of None \<Rightarrow> None | Some vs \<Rightarrow> Some (b64_bytes vs)))"

definition urlBase64ToUint8Array :: "string \<Rightarrow> nat list option" where
  "urlBase64ToUint8Array base64String =
     (let padding = replicate ((4 - length base64String mod 4) mod 4) CHR ''='';
          base64 = map (\<lambda>c. if c = CHR ''-'' then CHR ''+''
                             else if c = CHR ''_'' then CHR ''/'' else c)
                     (base64String @ padding)
      in atob base64)"

text \<open>
  A piece of the \<^verbatim>\<open>try\<close> block of \<^verbatim>\<open>enableNotifications\<close> either goes on with a state or
  raises an error with a message, at a state. The \<^verbatim>\<open>catch\<close> block shows the message and
  resets the button.
\<close>

datatype attempt = Went app | Threw string app

definition enable_catch :: "string \<Rightarrow> app \<Rightarrow> app" where
  "enable_catch message s =
     (showNotificationError message s)
       \<lparr>btnDisabled := False, btnText := sym_bell @ '' Enable Notifications''\<rparr>"

fun caught :: "attempt \<Rightarrow> app" where
  "caught (Went s) = s"
| "caught (Threw message s) = enable_catch message s"

text \<open>From the permission check to the request for the key.\<close>

definition enable_permitted :: "permission \<Rightarrow> app \<Rightarrow> attempt" where
  "enable_permitted permission s =
     (if permission \<noteq> Granted then Threw ''Notification permission denied'' s
      else if \<not> isOnline s
        then Threw ''Server not connected. Please wait for connection.'' s
      else Went (suspend VapidFetch
                  (fetch ''GET'' (serverUrl @ ''/vapid-public-key'') None s)))"

text \<open>From the click to the first \<^verbatim>\<open>await\<close>: the permission prompt when the permission
  is undecided, else the request for the key.\<close>

definition enable_clicked :: "app \<Rightarrow> attempt" where
  "enable_clicked s =
     (let s1 = s\<lparr>btnDisabled := True, btnText := sym_arrows @ '' Setting up...''\<rparr>
      in if \<not> swRegistration s1 then Threw ''Service Worker not available'' s1
         else if notificationPermission s1 = Default then Went (suspend PermissionPrompt s1)
         else enable_permitted (notificationPermission s1) s1)"

fun aborted :: "attempt \<Rightarrow> bool" where
  "aborted (Went s) = False"
| "aborted (Threw message s) = True"

definition enableNotifications :: "app \<Rightarrow> app" where
  "enableNotifications s = caught (enable_clicked s)"

text \<open>The prompt has been answered; the platform keeps the answer.\<close>

definition enable_answered :: "permission \<Rightarrow> app \<Rightarrow> attempt" where
  "enable_answered permission s =
     enable_permitted permission (s\<lparr>notificationPermission := permission\<rparr>)"

definition enable_vapid_fetched :: "fetch_result \<Rightarrow> app \<Rightarrow> attempt" where
  "enable_vapid_fetched r s =
     (case r of
        NetworkError message \<Rightarrow> Threw message s
      | HttpResponse status \<Rightarrow>
          if ok status then Went (suspend VapidJson s)
          else Threw (''VAPID endpoint failed: '' @ nat_digits status) s)"

text \<open>
  The body of the key response: \<^verbatim>\<open>json()\<close> rejected, a body with no \<^verbatim>\<open>publicKey\<close>
  (reading the key's length raises a type error; so does a body \<^verbatim>\<open>null\<close>), or a body
  with a text under \<^verbatim>\<open>publicKey\<close>.
\<close>

datatype vapid_json = VapidRejected string | VapidNoKey | VapidKey string

definition enable_vapid_jsoned :: "vapid_json \<Rightarrow> app \<Rightarrow> attempt" where
  "enable_vapid_jsoned v s =
     (case v of
        VapidRejected message \<Rightarrow> Threw message s
      | VapidNoKey \<Rightarrow> Threw (engineMessage s NullRead) s
      | VapidKey publicKey \<Rightarrow>
          (case urlBase64ToUint8Array publicKey of
             None \<Rightarrow> Threw (engineMessage s NotBase64) s
           | Some key \<Rightarrow>
               Went (suspend PushSubscribe
                      (s\<lparr>requests := requests s @ [PushManagerSubscribe key]\<rparr>))))"

text \<open>The subscription, as the text \<^verbatim>\<open>JSON.stringify\<close> makes of it, is sent on.\<close>

definition enable_subscribed :: "string + string \<Rightarrow> app \<Rightarrow> attempt" where
  "enable_subscribed r s =
     (case r of
        Inl message \<Rightarrow> Threw message s
      | Inr subscription \<Rightarrow>
          Went (suspend SubscribeFetch
                 (fetch ''POST'' (serverUrl @ ''/subscribe'') (Some subscription) s)))"

definition enable_subscribe_fetched :: "fetch_result \<Rightarrow> app \<Rightarrow> attempt" where
  "enable_subscribe_fetched r s =
     (case r of
        NetworkError message \<Rightarrow> Threw message s
      | HttpResponse status \<Rightarrow>
          if ok status then Went (suspend SubscribeJson s)
          else Threw (''Subscription failed: '' @ nat_digits status) s)"

text \<open>The last piece: the two flags, the write to storage (which may raise), the panel.\<close>

definition enable_subscribe_jsoned :: "string + json \<Rightarrow> app \<Rightarrow> attempt" where
  "enable_subscribe_jsoned j s =
     (case j of
        Inl message \<Rightarrow> Threw message s
      | Inr result \<Rightarrow>
          (let s1 = s\<lparr>notificationsEnabled := True, subscriptionActive := True\<rparr>
           in case setItem (storageQuota s1) ''notifications_enabled'' ''true''
                     (localStorage s1) of
                None \<Rightarrow> Threw (engineMessage s1 QuotaExceeded) s1
              | Some st \<Rightarrow> Went (updateNotificationUI (s1\<lparr>localStorage := st\<rparr>))))"

text \<open>The suspension points of the set-up sequence.\<close>

definition enable_cont :: "cont \<Rightarrow> bool" where
  "enable_cont c =
     (c \<in> {PermissionPrompt, VapidFetch, VapidJson, PushSubscribe, SubscribeFetch,
            SubscribeJson})"

section \<open>Events\<close>

text \<open>
  Everything that makes the page run a piece of the script: the events of the document and
  the window, the timers, the user's actions, and the settling of an awaited promise. A
  suspended call goes on only if it is pending, and is then no longer pending. The step
  function does not limit how often an event occurs.
\<close>

datatype event =
    DOMContentLoaded bool
  | SwRegistered "string + unit"
  | ProbeFetched waiter fetch_result
  | ProbeJsoned waiter "string + json"
  | SyncFetched waiter fetch_result
  | SyncJsoned waiter "string + json"
  | RetryTimer
  | OnlineEvent
  | OfflineEvent
  | VisibilityChange bool
  | AddReminder add_input
  | EditReminder int
  | SaveEdit edit_input
  | CancelEdit
  | DeleteReminder int bool
  | CtrlEnter add_input edit_input
  | Escape
  | DebouncedSave
  | CleanupTimer int
  | EnableClick
  | PermissionAnswered permission
  | VapidFetched fetch_result
  | VapidJsoned vapid_json
  | PushSubscribed "string + string"
  | SubscribeFetched fetch_result
  | SubscribeJsoned "string + json"

definition resume :: "cont \<Rightarrow> (app \<Rightarrow> app) \<Rightarrow> app \<Rightarrow> app" where
  "resume c k s =
     (if c \<in> set (pending s) then k (s\<lparr>pending := remove1 c (pending s)\<rparr>) else s)"

fun step :: "(string \<Rightarrow> int option) \<Rightarrow> event \<Rightarrow> app \<Rightarrow> app" where
  "step D (DOMContentLoaded sw) s = startup sw s"
| "step D (SwRegistered r) s = resume SwRegister (startup_registered r) s"
| "step D (ProbeFetched w r) s = resume (ProbeFetch w) (connectToServer_fetched w r) s"
| "step D (ProbeJsoned w j) s = resume (ProbeJson w) (connectToServer_jsoned w j) s"
| "step D (SyncFetched w r) s = resume (SyncFetch w) (syncWithServer_fetched w r) s"
| "step D (SyncJsoned w j) s = resume (SyncJson w) (syncWithServer_jsoned w j) s"
| "step D RetryTimer s = retry_timer s"
| "step D OnlineEvent s = online_event s"
| "step D OfflineEvent s = offline_event s"
| "step D (VisibilityChange hidden) s = visibilitychange hidden s"
| "step D (AddReminder i) s = addReminder D i s"
| "step D (EditReminder i) s = editReminder i s"
| "step D (SaveEdit i) s = saveEdit i s"
| "step D CancelEdit s = cancelEdit s"
| "step D (DeleteReminder i answer) s = deleteReminder i answer s"
| "step D (CtrlEnter a e) s = (if editFormShown s then saveEdit e s else addReminder D a s)"
| "step D Escape s = (if editFormShown s then cancelEdit s else s)"
| "step D DebouncedSave s = saveLocalReminders s"
| "step D (CleanupTimer now) s = cleanupPastReminders D now s"
| "step D EnableClick s = (if clickListener s then enableNotifications s else s)"
| "step D (PermissionAnswered p) s =
     resume PermissionPrompt (\<lambda>s. caught (enable_answered p s)) s"
| "step D (VapidFetched r) s = resume VapidFetch (\<lambda>s. caught (enable_vapid_fetched r s)) s"
| "step D (VapidJsoned v) s = resume VapidJson (\<lambda>s. caught (enable_vapid_jsoned v s)) s"
| "step D (PushSubscribed r) s = resume PushSubscribe (\<lambda>s. caught (enable_subscribed r s)) s"
| "step D (SubscribeFetched r) s =
     resume SubscribeFetch (\<lambda>s. caught (enable_subscribe_fetched r s)) s"
| "step D (SubscribeJsoned j) s =
     resume SubscribeJson (\<lambda>s. caught (enable_subscribe_jsoned j s)) s"

text \<open>
  The state in which the script starts: its globals as the script initialises them, nothing
  requested, shown or pending; the storage, the permission and the page are as the
  platform has them. \<open>run\<close> takes the events in their order, and a state is reachable when
  some sequence of events leads to it from a start.
\<close>

definition initial :: "app \<Rightarrow> bool" where
  "initial s =
     (reminders s = [] \<and> \<not> isOnline s \<and> editingId s = None \<and> \<not> syncInProgress s
      \<and> \<not> swRegistration s \<and> \<not> notificationsEnabled s \<and> \<not> subscriptionActive s
      \<and> \<not> clickListener s \<and> requests s = [] \<and> dialogs s = [] \<and> pending s = [])"

fun run :: "(string \<Rightarrow> int option) \<Rightarrow> event list \<Rightarrow> app \<Rightarrow> app" where
  "run D [] s = s"
| "run D (e # es) s = run D es (step D e s)"

inductive reachable :: "(string \<Rightarrow> int option) \<Rightarrow> app \<Rightarrow> bool" for D where
  reach_initial: "initial s \<Longrightarrow> reachable D s"
| reach_step: "reachable D s \<Longrightarrow> reachable D (step D e s)"

text \<open>
  The executions of \<^verbatim>\<open>syncWithServer\<close> in flight are the suspended calls that are inside
  its \<^verbatim>\<open>try\<close> block: at the request or at the reading of the response.
\<close>

fun is_sync :: "cont \<Rightarrow> bool" where
  "is_sync (SyncFetch w) = True"
| "is_sync (SyncJson w) = True"
| "is_sync c = False"

definition syncs_in_flight :: "app \<Rightarrow> nat" where
  "syncs_in_flight s = length (filter is_sync (pending s))"

text \<open>The guard agrees with the executions in flight.\<close>

definition guard_ok :: "app \<Rightarrow> bool" where
  "guard_ok s = (syncs_in_flight s = (if syncInProgress s then 1 else 0))"

section \<open>Service worker\<close>

subsection \<open>The fetch listener\<close>

text \<open>
  A response is its body and status. The listener either returns without answering, so
  that the request goes to the network as it is (\<open>PassThrough\<close>), or answers with the
  response of \<^verbatim>\<open>caches.match\<close>, with the response of \<^verbatim>\<open>fetch\<close>, or, when either promise is
  rejected, with a response of its own making. The two promises settle as the arguments
  say; the network is asked only when the cache has no response.
\<close>

datatype response = Response string nat

datatype fetch_outcome =
    PassThrough
  | FromCache response
  | FromNetwork response
  | Synthetic response

definition fetch_listener ::
    "string \<Rightarrow> string + response option \<Rightarrow> string + response \<Rightarrow> fetch_outcome" where
  "fetch_listener url cached network =
     (if str_includes url ''192.168.'' \<and> str_includes url '':3001'' then PassThrough
      else (case cached of
              Inl error \<Rightarrow> Synthetic (Response ''Network error'' 408)
            | Inr (Some response) \<Rightarrow> FromCache response
            | Inr None \<Rightarrow>
                (case network of
                   Inl error \<Rightarrow> Synthetic (Response ''Network error'' 408)
                 | Inr response \<Rightarrow> FromNetwork response)))"

text \<open>
  In the words of the specification: a request is addressed to the remote authority's
  known address and port when its URL is under the origin that both scripts name.
\<close>

definition addressed_to_remote_authority :: "string \<Rightarrow> bool" where
  "addressed_to_remote_authority url = startsWith url (serverUrl @ ''/'')"

text \<open>
  In the words of the listener's comment: a Pi server request goes to a host
  \<^verbatim>\<open>192.168.x.x\<close> at port 3001. The authority of a URL is what stands between the
  \<^verbatim>\<open>://\<close> after its scheme and the path, query or fragment.
\<close>

fun after_scheme :: "string \<Rightarrow> string" where
  "after_scheme [] = []"
| "after_scheme (c # cs) =
     (if startsWith (c # cs) ''://'' then drop 3 (c # cs) else after_scheme cs)"

definition url_authority :: "string \<Rightarrow> string" where
  "url_authority url = takeWhile (\<lambda>c. c \<notin> set ''/?#'') (after_scheme url)"

definition endsWith :: "string \<Rightarrow> string \<Rightarrow> bool" where
  "endsWith s p = startsWith (rev s) (rev p)"

definition pi_server_request :: "string \<Rightarrow> bool" where
  "pi_server_request url =
     (let authority = url_authority url;
          x_x = drop 8 (take (length authority - 5) authority);
          x1 = takeWhile is_digit x_x;
          x2 = dropWhile is_digit x_x
      in startsWith authority ''192.168.'' \<and> endsWith authority '':3001''
         \<and> x1 \<noteq> [] \<and> startsWith x2 ''.'' \<and> tl x2 \<noteq> [] \<and> list_all is_digit (tl x2))"

subsection \<open>The push listener\<close>


















section \<open>Concrete states and inputs\<close>

text \<open>
  A start state with a given storage quota: empty storage, permission undecided, a blank
  page. The examples below run the script from it.
\<close>

fun demo_message :: "engine_error \<Rightarrow> string" where
  "demo_message NullRead = ''Cannot read properties of null''"
| "demo_message NotBase64 = ''The string to be decoded is not correctly encoded.''"
| "demo_message QuotaExceeded = ''The quota has been exceeded.''"

definition fresh :: "nat \<Rightarrow> app" where
  "fresh quota =
     \<lparr>reminders = [], isOnline = False, editingId = None, syncInProgress = False,
      swRegistration = False, notificationsEnabled = False, subscriptionActive = False,
      localStorage = [], storageQuota = quota, notificationPermission = Default,
      statusMessage = [], statusType = [], notificationSetupShown = False,
      notificationStatusShown = False, notificationStatusClass = [],
      notificationStatusText = [], btnDisabled = False, btnText = [],
      editFormShown = False, clickListener = False, requests = [], dialogs = [],
      pending = [], engineMessage = demo_message\<rparr>"

text \<open>A reading of three dates (as UTC) and of no other text.\<close>

definition demo_D :: "string \<Rightarrow> int option" where
  "demo_D x =
     (if x = ''2024-01-01T10:00'' then Some 1704103200000
      else if x = ''2024-01-01T10:01'' then Some 1704103260000
      else if x = ''2020-01-01T10:00'' then Some 1577872800000
      else None)"

definition demo_reminder :: "int \<Rightarrow> string \<Rightarrow> string \<Rightarrow> reminder" where
  "demo_reminder i d p =
     \<lparr>ident = i, dateTime = d, note_text = ''call Bob'', repeat = p,
      created = ''2023-12-31T09:00:00.000Z'', modified = None\<rparr>"

text \<open>The form filled in for 1 January 2024, 10:00, submitted when the clock reads \<open>i\<close>.\<close>

definition demo_input :: "int \<Rightarrow> add_input" where
  "demo_input i =
     \<lparr>add_dateTime = ''2024-01-01T10:00'', add_note = '' call Bob '', add_repeat = ''once'',
      add_now = i, add_confirm = False, add_id = i,
      add_created = ''2023-12-31T05:20:00.000Z''\<rparr>"

text \<open>The probe has succeeded when its body has been read and is not \<^verbatim>\<open>null\<close>.\<close>

definition probe_succeeded :: "event \<Rightarrow> bool" where
  "probe_succeeded e =
     (case e of
        ProbeJsoned w j \<Rightarrow> (case j of Inl message \<Rightarrow> False | Inr data \<Rightarrow> data \<noteq> JNull)
      | _ \<Rightarrow> False)"

text \<open>
  Start-up on a platform without service workers, the probe answered with status 200 and
  a JSON object: the state is online and the first sync is in flight.
\<close>

definition demo_syncing :: app where
  "demo_syncing =
     run demo_D
       [DOMContentLoaded False, ProbeFetched Init (HttpResponse 200),
        ProbeJsoned Init (Inr (JObj [(''message'', JStr ''ready'')]))]
       (fresh 0)"

text \<open>
  A page with a service worker and room in the storage: start-up, a successful probe and
  sync, then the set-up sequence up to the last reading of the server's answer.
\<close>

definition demo_subscribing :: app where
  "demo_subscribing =
     run demo_D
       [DOMContentLoaded True, SwRegistered (Inr ()),
        ProbeFetched Init (HttpResponse 200),
        ProbeJsoned Init (Inr (JObj [(''message'', JStr ''ready'')])),
        SyncFetched Init (HttpResponse 200), SyncJsoned Init (Inr (JObj [])),
        EnableClick, PermissionAnswered Granted,
        VapidFetched (HttpResponse 200), VapidJsoned (VapidKey ''AQAB''),
        PushSubscribed (Inr ''{}''), SubscribeFetched (HttpResponse 201)]
       (fresh 100)"

section \<open>Properties\<close>

lemma reminders_saveLocalReminders [simp]:
  "reminders (saveLocalReminders s) = reminders s"
  by (simp add: saveLocalReminders_def split: option.splits)

lemma hoursAgo_gt_24: "(hoursAgo now t > 24) = (now - t > 86400000)"
proof -
  have "(hoursAgo now t > 24) = ((24::rat) * 3600000 < of_int (now - t))"
    by (simp add: hoursAgo_def pos_less_divide_eq)
  also have "\<dots> = ((of_int 86400000 :: rat) < of_int (now - t))"
    by simp
  also have "\<dots> = (86400000 < now - t)"
    by (simp only: of_int_less_iff)
  finally show ?thesis .
qed

lemma reminders_cleanupPastReminders:
  "reminders (cleanupPastReminders D now s) = filter (sweep_keeps D now) (reminders s)"
  by (simp add: cleanupPastReminders_def Let_def)

text \<open>
  C2. The sweep keeps the reminders, in their order, except those with repeat rule
  \<^verbatim>\<open>once\<close> whose time lies more than 24 hours (86400000 ms) before the current time:
  each of those is removed, a \<^verbatim>\<open>once\<close> reminder exactly 24 hours old stays, and a
  reminder with any other repeat rule stays however old it is.
\<close>

theorem cleanup_retention_boundary:
  "(r \<in> set (reminders s) \<and> repeat r = ''once'' \<and> D (dateTime r) = Some t
      \<and> now - t > 24 * 60 * 60 * 1000
     \<longrightarrow> r \<notin> set (reminders (cleanupPastReminders D now s)))
   \<and> (r \<in> set (reminders s) \<and> repeat r = ''once'' \<and> D (dateTime r) = Some t
      \<and> now - t = 24 * 60 * 60 * 1000
     \<longrightarrow> r \<in> set (reminders (cleanupPastReminders D now s)))
   \<and> (r \<in> set (reminders s) \<and> repeat r \<noteq> ''once''
     \<longrightarrow> r \<in> set (reminders (cleanupPastReminders D now s)))
   \<and> reminders (cleanupPastReminders D now s) =
       filter (\<lambda>r. \<not> (repeat r = ''once''
                 \<and> (\<exists>t. D (dateTime r) = Some t \<and> now - t > 24 * 60 * 60 * 1000)))
         (reminders s)"
proof -
  have keeps: "sweep_keeps D now x =
      (\<not> (repeat x = ''once'' \<and> (\<exists>t. D (dateTime x) = Some t \<and> now - t > 24 * 60 * 60 * 1000)))"
    for x
    by (simp add: sweep_keeps_def hoursAgo_gt_24 split: option.splits)
  have eq: "reminders (cleanupPastReminders D now s) =
      filter (\<lambda>r. \<not> (repeat r = ''once''
                 \<and> (\<exists>t. D (dateTime r) = Some t \<and> now - t > 24 * 60 * 60 * 1000)))
        (reminders s)"
    unfolding reminders_cleanupPastReminders using keeps by presburger
  show ?thesis
    unfolding eq by auto
qed


theorem cleanup_retention_boundary_witness:
  "demo_reminder 1 ''2024-01-01T10:00'' ''once''
     \<notin> set (reminders (cleanupPastReminders demo_D 1704189660000
          ((fresh 0)\<lparr>reminders :=
             [demo_reminder 1 ''2024-01-01T10:00'' ''once'',
              demo_reminder 2 ''2024-01-01T10:01'' ''once'',
              demo_reminder 3 ''2020-01-01T10:00'' ''daily'']\<rparr>)))
   \<and> demo_reminder 2 ''2024-01-01T10:01'' ''once''
     \<in> set (reminders (cleanupPastReminders demo_D 1704189660000
          ((fresh 0)\<lparr>reminders :=
             [demo_reminder 1 ''2024-01-01T10:00'' ''once'',
              demo_reminder 2 ''2024-01-01T10:01'' ''once'',
              demo_reminder 3 ''2020-01-01T10:00'' ''daily'']\<rparr>)))
   \<and> demo_reminder 3 ''2020-01-01T10:00'' ''daily''
     \<in> set (reminders (cleanupPastReminders demo_D 1704189660000
          ((fresh 0)\<lparr>reminders :=
             [demo_reminder 1 ''2024-01-01T10:00'' ''once'',
              demo_reminder 2 ''2024-01-01T10:01'' ''once'',
              demo_reminder 3 ''2020-01-01T10:00'' ''daily'']\<rparr>)))"
proof -
  let ?r1 = "demo_reminder 1 ''2024-01-01T10:00'' ''once''"
  let ?r2 = "demo_reminder 2 ''2024-01-01T10:01'' ''once''"
  let ?r3 = "demo_reminder 3 ''2020-01-01T10:00'' ''daily''"
  let ?s = "(fresh 0)\<lparr>reminders := [?r1, ?r2, ?r3]\<rparr>"
  have h1: "?r1 \<in> set (reminders ?s) \<and> repeat ?r1 = ''once''
      \<and> demo_D (dateTime ?r1) = Some 1704103200000
      \<and> 1704189660000 - 1704103200000 > (24 * 60 * 60 * 1000 :: int)"
    by (simp add: demo_reminder_def demo_D_def)
  have h2: "?r2 \<in> set (reminders ?s) \<and> repeat ?r2 = ''once''
      \<and> demo_D (dateTime ?r2) = Some 1704103260000
      \<and> 1704189660000 - 1704103260000 = (24 * 60 * 60 * 1000 :: int)"
    by (simp add: demo_reminder_def demo_D_def)
  have h3: "?r3 \<in> set (reminders ?s) \<and> repeat ?r3 \<noteq> ''once''"
    by (simp add: demo_reminder_def)
  from h1 cleanup_retention_boundary
         [where r = ?r1 and s = ?s and D = demo_D and t = 1704103200000
            and now = 1704189660000]
  have c1: "?r1 \<notin> set (reminders (cleanupPastReminders demo_D 1704189660000 ?s))"
    by blast
  from h2 cleanup_retention_boundary
         [where r = ?r2 and s = ?s and D = demo_D and t = 1704103260000
            and now = 1704189660000]
  have c2: "?r2 \<in> set (reminders (cleanupPastReminders demo_D 1704189660000 ?s))"
    by blast
  from h3 cleanup_retention_boundary
         [where r = ?r3 and s = ?s and D = demo_D and now = 1704189660000]
  have c3: "?r3 \<in> set (reminders (cleanupPastReminders demo_D 1704189660000 ?s))"
    by blast
  from c1 c2 c3 show ?thesis by blast
qed

subsection \<open>What the pieces leave unchanged\<close>

lemma updateStatus_frame [simp]:
  "reminders (updateStatus m t s) = reminders s"
  "localStorage (updateStatus m t s) = localStorage s"
  "storageQuota (updateStatus m t s) = storageQuota s"
  "isOnline (updateStatus m t s) = isOnline s"
  "syncInProgress (updateStatus m t s) = syncInProgress s"
  "pending (updateStatus m t s) = pending s"
  "requests (updateStatus m t s) = requests s"
  "dialogs (updateStatus m t s) = dialogs s"
  "editingId (updateStatus m t s) = editingId s"
  "notificationPermission (updateStatus m t s) = notificationPermission s"
  by (simp_all add: updateStatus_def)

lemma showNotificationError_frame [simp]:
  "reminders (showNotificationError m s) = reminders s"
  "localStorage (showNotificationError m s) = localStorage s"
  "storageQuota (showNotificationError m s) = storageQuota s"
  "isOnline (showNotificationError m s) = isOnline s"
  "syncInProgress (showNotificationError m s) = syncInProgress s"
  "pending (showNotificationError m s) = pending s"
  "requests (showNotificationError m s) = requests s"
  "dialogs (showNotificationError m s) = dialogs s"
  "editingId (showNotificationError m s) = editingId s"
  "notificationPermission (showNotificationError m s) = notificationPermission s"
  by (simp_all add: showNotificationError_def)

lemma updateNotificationUI_frame [simp]:
  "reminders (updateNotificationUI s) = reminders s"
  "localStorage (updateNotificationUI s) = localStorage s"
  "storageQuota (updateNotificationUI s) = storageQuota s"
  "isOnline (updateNotificationUI s) = isOnline s"
  "syncInProgress (updateNotificationUI s) = syncInProgress s"
  "pending (updateNotificationUI s) = pending s"
  "requests (updateNotificationUI s) = requests s"
  "dialogs (updateNotificationUI s) = dialogs s"
  "editingId (updateNotificationUI s) = editingId s"
  "notificationPermission (updateNotificationUI s) = notificationPermission s"
  by (simp_all add: updateNotificationUI_def Let_def)

lemma finish_frame [simp]:
  "reminders (finish w s) = reminders s"
  "localStorage (finish w s) = localStorage s"
  "storageQuota (finish w s) = storageQuota s"
  "isOnline (finish w s) = isOnline s"
  "syncInProgress (finish w s) = syncInProgress s"
  "pending (finish w s) = pending s"
  "requests (finish w s) = requests s"
  "dialogs (finish w s) = dialogs s"
  "editingId (finish w s) = editingId s"
  "notificationPermission (finish w s) = notificationPermission s"
  by (cases w; simp add: init_tail_def)+

lemma alert_frame [simp]:
  "reminders (alert m s) = reminders s"
  "localStorage (alert m s) = localStorage s"
  "storageQuota (alert m s) = storageQuota s"
  "isOnline (alert m s) = isOnline s"
  "syncInProgress (alert m s) = syncInProgress s"
  "pending (alert m s) = pending s"
  "requests (alert m s) = requests s"
  "dialogs (alert m s) = dialogs s @ [m]"
  "editingId (alert m s) = editingId s"
  by (simp_all add: alert_def)

lemma saveLocalReminders_frame [simp]:
  "storageQuota (saveLocalReminders s) = storageQuota s"
  "isOnline (saveLocalReminders s) = isOnline s"
  "syncInProgress (saveLocalReminders s) = syncInProgress s"
  "pending (saveLocalReminders s) = pending s"
  "requests (saveLocalReminders s) = requests s"
  "dialogs (saveLocalReminders s) = dialogs s"
  "editingId (saveLocalReminders s) = editingId s"
  by (simp_all add: saveLocalReminders_def split: option.splits)

lemma suspend_frame [simp]:
  "reminders (suspend c s) = reminders s"
  "localStorage (suspend c s) = localStorage s"
  "storageQuota (suspend c s) = storageQuota s"
  "isOnline (suspend c s) = isOnline s"
  "syncInProgress (suspend c s) = syncInProgress s"
  "pending (suspend c s) = pending s @ [c]"
  "requests (suspend c s) = requests s"
  "dialogs (suspend c s) = dialogs s"
  "editingId (suspend c s) = editingId s"
  by (simp_all add: suspend_def)

lemma fetch_frame [simp]:
  "reminders (fetch m u b s) = reminders s"
  "localStorage (fetch m u b s) = localStorage s"
  "storageQuota (fetch m u b s) = storageQuota s"
  "isOnline (fetch m u b s) = isOnline s"
  "syncInProgress (fetch m u b s) = syncInProgress s"
  "pending (fetch m u b s) = pending s"
  "requests (fetch m u b s) = requests s @ [Fetch m u b]"
  "dialogs (fetch m u b s) = dialogs s"
  "editingId (fetch m u b s) = editingId s"
  by (simp_all add: fetch_def)

lemma sync_catch_frame [simp]:
  "reminders (sync_catch e s) = reminders s"
  "localStorage (sync_catch e s) = localStorage s"
  "isOnline (sync_catch e s) = False"
  "syncInProgress (sync_catch e s) = syncInProgress s"
  "pending (sync_catch e s) = pending s"
  "requests (sync_catch e s) = requests s"
  "dialogs (sync_catch e s) = dialogs s"
  by (simp_all add: sync_catch_def)

lemma sync_finally_frame [simp]:
  "reminders (sync_finally s) = reminders s"
  "localStorage (sync_finally s) = localStorage s"
  "isOnline (sync_finally s) = isOnline s"
  "syncInProgress (sync_finally s) = False"
  "pending (sync_finally s) = pending s"
  "requests (sync_finally s) = requests s"
  "dialogs (sync_finally s) = dialogs s"
  by (simp_all add: sync_finally_def)

lemma connect_catch_frame [simp]:
  "reminders (connect_catch e s) = reminders s"
  "localStorage (connect_catch e s) = localStorage s"
  "isOnline (connect_catch e s) = False"
  "syncInProgress (connect_catch e s) = syncInProgress s"
  "pending (connect_catch e s) = pending s"
  "requests (connect_catch e s) = requests s"
  "dialogs (connect_catch e s) = dialogs s"
  by (simp_all add: connect_catch_def)

lemma syncs_in_flight_frame:
  "pending s' = pending s \<Longrightarrow> syncs_in_flight s' = syncs_in_flight s"
  by (simp add: syncs_in_flight_def)

lemma guard_ok_frame:
  "pending s' = pending s \<Longrightarrow> syncInProgress s' = syncInProgress s \<Longrightarrow> guard_ok s' = guard_ok s"
  by (simp add: guard_ok_def syncs_in_flight_def)

lemma guard_ok_finish [simp]: "guard_ok (finish w s) = guard_ok s"
  by (rule guard_ok_frame) simp_all

lemma guard_ok_syncWithServer: "guard_ok s \<Longrightarrow> guard_ok (syncWithServer w s)"
  by (auto simp: syncWithServer_def guard_ok_def syncs_in_flight_def)


lemma filter_remove1_other: "\<not> P c \<Longrightarrow> filter P (remove1 c xs) = filter P xs"
  by (induction xs) auto

lemma length_filter_remove1:
  "c \<in> set xs \<Longrightarrow> P c \<Longrightarrow> Suc (length (filter P (remove1 c xs))) = length (filter P xs)"
  by (induction xs) auto

lemma guard_ok_suspend: "\<not> is_sync c \<Longrightarrow> guard_ok (suspend c s) = guard_ok s"
  by (simp add: guard_ok_def syncs_in_flight_def)

lemma guard_ok_resume:
  assumes "\<not> is_sync c" and "\<And>s. guard_ok s \<Longrightarrow> guard_ok (k s)" and "guard_ok s"
  shows "guard_ok (resume c k s)"
proof (cases "c \<in> set (pending s)")
  case True
  have "guard_ok (s\<lparr>pending := remove1 c (pending s)\<rparr>)"
    using assms(1,3) by (simp add: guard_ok_def syncs_in_flight_def filter_remove1_other)
  with True assms(2) show ?thesis by (simp add: resume_def)
next
  case False
  with assms(3) show ?thesis by (simp add: resume_def)
qed

lemma resumed_sync:
  assumes "guard_ok s" and "c \<in> set (pending s)" and "is_sync c"
  shows "syncInProgress s"
    and "syncs_in_flight (s\<lparr>pending := remove1 c (pending s)\<rparr>) = 0"
proof -
  from assms(2,3) have pos: "0 < syncs_in_flight s"
    by (auto simp: syncs_in_flight_def filter_empty_conv)
  with assms(1) show flag: "syncInProgress s"
    by (auto simp: guard_ok_def split: if_splits)
  with assms(1) have "syncs_in_flight s = 1" by (simp add: guard_ok_def)
  with length_filter_remove1 [OF assms(2), of is_sync] assms(3)
  show "syncs_in_flight (s\<lparr>pending := remove1 c (pending s)\<rparr>) = 0"
    by (simp add: syncs_in_flight_def)
qed

lemma guard_ok_sync_fetched:
  assumes "guard_ok s"
  shows "guard_ok (resume (SyncFetch w) (syncWithServer_fetched w r) s)"
proof (cases "SyncFetch w \<in> set (pending s)")
  case True
  from resumed_sync [OF assms True] have "syncInProgress s"
    and "syncs_in_flight (s\<lparr>pending := remove1 (SyncFetch w) (pending s)\<rparr>) = 0"
    by simp_all
  with True show ?thesis
    by (auto simp: resume_def syncWithServer_fetched_def guard_ok_def syncs_in_flight_def
        split: fetch_result.splits)
next
  case False
  with assms show ?thesis by (simp add: resume_def)
qed

lemma guard_ok_sync_jsoned:
  assumes "guard_ok s"
  shows "guard_ok (resume (SyncJson w) (syncWithServer_jsoned w j) s)"
proof (cases "SyncJson w \<in> set (pending s)")
  case True
  from resumed_sync [OF assms True] have "syncInProgress s"
    and "syncs_in_flight (s\<lparr>pending := remove1 (SyncJson w) (pending s)\<rparr>) = 0"
    by simp_all
  with True show ?thesis
    by (auto simp: resume_def syncWithServer_jsoned_def guard_ok_def syncs_in_flight_def
        split: sum.splits)
next
  case False
  with assms show ?thesis by (simp add: resume_def)
qed

lemma guard_ok_connectToServer: "guard_ok s \<Longrightarrow> guard_ok (connectToServer w s)"
  by (simp add: connectToServer_def guard_ok_def syncs_in_flight_def)

lemma guard_ok_connect_fetched: "guard_ok s \<Longrightarrow> guard_ok (connectToServer_fetched w r s)"
  by (auto simp: connectToServer_fetched_def guard_ok_def syncs_in_flight_def
      split: fetch_result.splits)

lemma guard_ok_connect_jsoned: "guard_ok s \<Longrightarrow> guard_ok (connectToServer_jsoned w j s)"
proof (cases j)
  case (Inl m)
  assume "guard_ok s"
  with Inl show ?thesis
    by (simp add: connectToServer_jsoned_def guard_ok_def syncs_in_flight_def)
next
  case (Inr data)
  assume ok: "guard_ok s"
  let ?s1 = "updateStatus (sym_green @ '' Online - Server connected'') ''online''
               (s\<lparr>isOnline := True\<rparr>)"
  from ok have "guard_ok (updateNotificationUI ?s1)"
    by (simp add: guard_ok_def syncs_in_flight_def)
  then have a: "guard_ok (syncWithServer w (updateNotificationUI ?s1))"
    by (rule guard_ok_syncWithServer)
  from ok have b: "guard_ok (finish w (connect_catch m ?s1))" for m
    by (simp add: guard_ok_def syncs_in_flight_def)
  from a b Inr show ?thesis
    by (simp add: connectToServer_jsoned_def Let_def)
qed

lemma guard_ok_saveLocalReminders [simp]: "guard_ok (saveLocalReminders s) = guard_ok s"
  by (rule guard_ok_frame) simp_all

lemma loadLocalReminders_frame [simp]:
  "localStorage (loadLocalReminders s) = localStorage s"
  "isOnline (loadLocalReminders s) = isOnline s"
  "syncInProgress (loadLocalReminders s) = syncInProgress s"
  "pending (loadLocalReminders s) = pending s"
  "requests (loadLocalReminders s) = requests s"
  "dialogs (loadLocalReminders s) = dialogs s"
  by (simp_all add: loadLocalReminders_def split: option.splits)

lemma guard_ok_reminders_update [simp]: "guard_ok (s\<lparr>reminders := rs\<rparr>) = guard_ok s"
  by (simp add: guard_ok_def syncs_in_flight_def)

lemma guard_ok_alert [simp]: "guard_ok (alert m s) = guard_ok s"
  by (rule guard_ok_frame) simp_all

lemma guard_ok_cancelEdit [simp]: "guard_ok (cancelEdit s) = guard_ok s"
  by (simp add: guard_ok_def syncs_in_flight_def cancelEdit_def)

lemma guard_ok_addReminder: "guard_ok s \<Longrightarrow> guard_ok (addReminder D i s)"
  by (auto simp: addReminder_def Let_def intro!: guard_ok_syncWithServer)

lemma guard_ok_saveEdit: "guard_ok s \<Longrightarrow> guard_ok (saveEdit i s)"
  by (auto simp: saveEdit_def Let_def split: option.splits intro!: guard_ok_syncWithServer)

lemma guard_ok_deleteReminder: "guard_ok s \<Longrightarrow> guard_ok (deleteReminder i a s)"
  by (auto simp: deleteReminder_def Let_def split: option.splits
      intro!: guard_ok_syncWithServer)

lemma guard_ok_editReminder: "guard_ok s \<Longrightarrow> guard_ok (editReminder i s)"
  by (auto simp: editReminder_def guard_ok_def syncs_in_flight_def split: option.splits)

lemma guard_ok_cleanup: "guard_ok s \<Longrightarrow> guard_ok (cleanupPastReminders D now s)"
  by (simp add: cleanupPastReminders_def Let_def)

lemma guard_ok_startup: "guard_ok s \<Longrightarrow> guard_ok (startup sw s)"
  by (auto simp: startup_def Let_def guard_ok_def syncs_in_flight_def connectToServer_def)

lemma guard_ok_startup_registered: "guard_ok s \<Longrightarrow> guard_ok (startup_registered r s)"
  by (auto simp: startup_registered_def guard_ok_def syncs_in_flight_def connectToServer_def
      split: sum.splits)

lemma enable_catch_frame [simp]:
  "reminders (enable_catch m s) = reminders s"
  "localStorage (enable_catch m s) = localStorage s"
  "isOnline (enable_catch m s) = isOnline s"
  "syncInProgress (enable_catch m s) = syncInProgress s"
  "pending (enable_catch m s) = pending s"
  "requests (enable_catch m s) = requests s"
  "dialogs (enable_catch m s) = dialogs s"
  by (simp_all add: enable_catch_def)

lemma guard_ok_enable_catch [simp]: "guard_ok (enable_catch m s) = guard_ok s"
  by (rule guard_ok_frame) simp_all

lemma guard_ok_enable_permitted: "guard_ok s \<Longrightarrow> guard_ok (caught (enable_permitted p s))"
  by (simp add: enable_permitted_def guard_ok_suspend)
     (simp add: guard_ok_def syncs_in_flight_def)

lemma guard_ok_enable:
  assumes "guard_ok s"
  shows "guard_ok (enableNotifications s)"
    and "guard_ok (caught (enable_answered p s))"
    and "guard_ok (caught (enable_vapid_fetched r s))"
    and "guard_ok (caught (enable_vapid_jsoned v s))"
    and "guard_ok (caught (enable_subscribed u s))"
    and "guard_ok (caught (enable_subscribe_fetched r s))"
    and "guard_ok (caught (enable_subscribe_jsoned j s))"
  using assms
  by (auto simp: enableNotifications_def enable_clicked_def enable_answered_def
      enable_permitted_def enable_vapid_fetched_def enable_vapid_jsoned_def
      enable_subscribed_def enable_subscribe_fetched_def enable_subscribe_jsoned_def
      Let_def guard_ok_def syncs_in_flight_def
      split: fetch_result.splits vapid_json.splits sum.splits option.splits)

lemma guard_ok_step: "guard_ok s \<Longrightarrow> guard_ok (step D e s)"
proof (cases e)
  case (ProbeFetched w r)
  assume "guard_ok s"
  then show ?thesis unfolding ProbeFetched step.simps
    by (intro guard_ok_resume guard_ok_connect_fetched) simp_all
next
  case (ProbeJsoned w j)
  assume "guard_ok s"
  then show ?thesis unfolding ProbeJsoned step.simps
    by (intro guard_ok_resume guard_ok_connect_jsoned) simp_all
next
  case (SwRegistered r)
  assume "guard_ok s"
  then show ?thesis unfolding SwRegistered step.simps
    by (intro guard_ok_resume guard_ok_startup_registered) simp_all
next
  case (PermissionAnswered p)
  assume "guard_ok s"
  then show ?thesis unfolding PermissionAnswered step.simps
    by (intro guard_ok_resume guard_ok_enable) simp_all
next
  case (VapidFetched r)
  assume "guard_ok s"
  then show ?thesis unfolding VapidFetched step.simps
    by (intro guard_ok_resume guard_ok_enable) simp_all
next
  case (VapidJsoned r)
  assume "guard_ok s"
  then show ?thesis unfolding VapidJsoned step.simps
    by (intro guard_ok_resume guard_ok_enable) simp_all
next
  case (PushSubscribed r)
  assume "guard_ok s"
  then show ?thesis unfolding PushSubscribed step.simps
    by (intro guard_ok_resume guard_ok_enable) simp_all
next
  case (SubscribeFetched r)
  assume "guard_ok s"
  then show ?thesis unfolding SubscribeFetched step.simps
    by (intro guard_ok_resume guard_ok_enable) simp_all
next
  case (SubscribeJsoned r)
  assume "guard_ok s"
  then show ?thesis unfolding SubscribeJsoned step.simps
    by (intro guard_ok_resume guard_ok_enable) simp_all
qed (auto simp: guard_ok_sync_fetched guard_ok_sync_jsoned retry_timer_def online_event_def
      offline_event_def visibilitychange_def guard_ok_connectToServer guard_ok_syncWithServer
      guard_ok_addReminder guard_ok_saveEdit guard_ok_deleteReminder guard_ok_editReminder
      guard_ok_cleanup guard_ok_startup guard_ok_enable
      intro: guard_ok_frame [THEN iffD2])


lemma reachable_run: "reachable D s \<Longrightarrow> reachable D (run D es s)"
  by (induction es arbitrary: s) (auto intro: reachable.intros)

lemma guard_ok_reachable: "reachable D s \<Longrightarrow> guard_ok s"
proof (induction rule: reachable.induct)
  case (reach_initial s)
  then show ?case by (simp add: initial_def guard_ok_def syncs_in_flight_def)
next
  case (reach_step s e)
  then show ?case by (simp add: guard_ok_step)
qed

lemma initial_fresh: "initial (fresh q)"
  by (simp add: initial_def fresh_def)

lemma demo_syncing_eval:
  "demo_syncing =
     (fresh 0)\<lparr>isOnline := True, syncInProgress := True,
       statusMessage := sym_outbox @ '' Syncing with server...'', statusType := ''syncing'',
       notificationSetupShown := True, notificationStatusShown := False,
       notificationStatusClass := ''notification-status error'',
       notificationStatusText :=
         sym_cross @ '' Service Workers not supported in this browser'',
       btnDisabled := False, btnText := sym_bell @ '' Enable Notifications'',
       requests := [Fetch ''GET'' serverUrl None,
                    Fetch ''POST'' (serverUrl @ ''/sync-reminders'') (Some (sync_body []))],
       pending := [SyncFetch Init]\<rparr>"
  by (simp add: demo_syncing_def fresh_def startup_def loadLocalReminders_def getItem_def
      connectToServer_def suspend_def fetch_def updateStatus_def showNotificationError_def
      resume_def connectToServer_fetched_def ok_def connectToServer_jsoned_def Let_def
      updateNotificationUI_def syncWithServer_def)

text \<open>
  C1. In every state the page can reach, by whatever order of events, at most one
  execution of \<^verbatim>\<open>syncWithServer\<close> is in flight, also after one more event, and one is in
  flight exactly when the guard \<^verbatim>\<open>syncInProgress\<close> is set. A call made while one is in
  flight returns at once (only its awaiting caller goes on): it issues no request,
  suspends nothing, and leaves the reminders, the storage and the connectivity as they are.
\<close>

theorem sync_single_flight:
  "reachable D s \<Longrightarrow>
     syncs_in_flight s \<le> 1
     \<and> syncs_in_flight (step D e s) \<le> 1
     \<and> (syncInProgress s \<longleftrightarrow> syncs_in_flight s = 1)
     \<and> (0 < syncs_in_flight s \<longrightarrow>
          syncWithServer Detached s = s
          \<and> syncWithServer w s = finish w s
          \<and> requests (syncWithServer w s) = requests s
          \<and> pending (syncWithServer w s) = pending s
          \<and> reminders (syncWithServer w s) = reminders s
          \<and> localStorage (syncWithServer w s) = localStorage s
          \<and> isOnline (syncWithServer w s) = isOnline s)"
proof -
  assume r: "reachable D s"
  then have g: "guard_ok s" by (rule guard_ok_reachable)
  from r have "reachable D (step D e s)" by (rule reachable.reach_step)
  then have g': "guard_ok (step D e s)" by (rule guard_ok_reachable)
  from g have a: "syncs_in_flight s \<le> 1" by (simp add: guard_ok_def split: if_splits)
  from g' have b: "syncs_in_flight (step D e s) \<le> 1"
    by (simp add: guard_ok_def split: if_splits)
  from g have c: "syncInProgress s \<longleftrightarrow> syncs_in_flight s = 1"
    by (simp add: guard_ok_def split: if_splits)
  have d: "syncWithServer w s = finish w s" if "0 < syncs_in_flight s" for w
    using that c a by (simp add: syncWithServer_def)
  from a b c d [of Detached] d [of w] show ?thesis by simp
qed

theorem sync_single_flight_witness:
  "syncs_in_flight demo_syncing = 1
   \<and> syncs_in_flight (step demo_D (AddReminder (demo_input 1704000000000)) demo_syncing) \<le> 1
   \<and> syncInProgress demo_syncing
   \<and> syncWithServer Detached demo_syncing = demo_syncing
   \<and> requests (syncWithServer Detached demo_syncing) = requests demo_syncing
   \<and> length (requests demo_syncing) = 2"
proof -
  have r: "reachable demo_D demo_syncing"
    unfolding demo_syncing_def
    by (intro reachable_run reachable.reach_initial initial_fresh)
  have n: "syncs_in_flight demo_syncing = 1"
    by (simp add: demo_syncing_eval syncs_in_flight_def)
  have l: "length (requests demo_syncing) = 2"
    by (simp add: demo_syncing_eval)
  from sync_single_flight
         [OF r, where e = "AddReminder (demo_input 1704000000000)" and w = Detached] n l
  show ?thesis by simp
qed

lemma resume_pending: "c \<in> set (pending s) \<Longrightarrow> resume c k s = k (s\<lparr>pending := remove1 c (pending s)\<rparr>)"
  by (simp add: resume_def)

text \<open>
  C4. When the request of a sync in flight is rejected, or answered with a status that is
  not 2xx, the state afterwards is offline with the guard released; the reminders, the
  storage, the requests issued and the dialogs are as before, and nothing is pending but
  what was pending beside the sync: no retry is asked for. The failure ends in the
  \<^verbatim>\<open>catch\<close> and \<^verbatim>\<open>finally\<close> blocks and the awaiting caller goes on as after a
  success: nothing is raised to it. A body that cannot be read ends the same way.
\<close>

theorem sync_failure_atomic:
  "(SyncFetch w \<in> set (pending s)
      \<and> (r = NetworkError m \<or> (r = HttpResponse status \<and> \<not> ok status))
     \<longrightarrow> \<not> isOnline (step D (SyncFetched w r) s)
       \<and> \<not> syncInProgress (step D (SyncFetched w r) s)
       \<and> reminders (step D (SyncFetched w r) s) = reminders s
       \<and> localStorage (step D (SyncFetched w r) s) = localStorage s
       \<and> requests (step D (SyncFetched w r) s) = requests s
       \<and> pending (step D (SyncFetched w r) s) = remove1 (SyncFetch w) (pending s)
       \<and> dialogs (step D (SyncFetched w r) s) = dialogs s
       \<and> (\<exists>error. step D (SyncFetched w r) s =
             finish w (sync_finally (sync_catch error
               (s\<lparr>pending := remove1 (SyncFetch w) (pending s)\<rparr>)))))
   \<and> (SyncJson w \<in> set (pending s)
     \<longrightarrow> \<not> isOnline (step D (SyncJsoned w (Inl m)) s)
       \<and> \<not> syncInProgress (step D (SyncJsoned w (Inl m)) s)
       \<and> reminders (step D (SyncJsoned w (Inl m)) s) = reminders s
       \<and> localStorage (step D (SyncJsoned w (Inl m)) s) = localStorage s
       \<and> requests (step D (SyncJsoned w (Inl m)) s) = requests s
       \<and> pending (step D (SyncJsoned w (Inl m)) s) = remove1 (SyncJson w) (pending s))"
proof -
  let ?s0 = "s\<lparr>pending := remove1 (SyncFetch w) (pending s)\<rparr>"
  have net: "syncWithServer_fetched w (NetworkError m) ?s0 =
      finish w (sync_finally (sync_catch m ?s0))"
    by (simp add: syncWithServer_fetched_def)
  have http: "syncWithServer_fetched w (HttpResponse status) ?s0 =
      finish w (sync_finally (sync_catch (''Sync failed: '' @ nat_digits status) ?s0))"
    if "\<not> ok status"
    using that by (simp add: syncWithServer_fetched_def)
  have js: "syncWithServer_jsoned w (Inl m) s' = finish w (sync_finally (sync_catch m s'))"
    for s'
    by (simp add: syncWithServer_jsoned_def)
  show ?thesis
    using net http by (auto simp: resume_pending js)
qed

theorem sync_failure_atomic_witness:
  "SyncFetch Init \<in> set (pending demo_syncing)
   \<and> \<not> ok 503
   \<and> isOnline demo_syncing
   \<and> \<not> isOnline (step demo_D (SyncFetched Init (HttpResponse 503)) demo_syncing)
   \<and> \<not> syncInProgress (step demo_D (SyncFetched Init (HttpResponse 503)) demo_syncing)
   \<and> reminders (step demo_D (SyncFetched Init (HttpResponse 503)) demo_syncing)
       = reminders demo_syncing
   \<and> localStorage (step demo_D (SyncFetched Init (HttpResponse 503)) demo_syncing)
       = localStorage demo_syncing
   \<and> requests (step demo_D (SyncFetched Init (HttpResponse 503)) demo_syncing)
       = requests demo_syncing
   \<and> pending (step demo_D (SyncFetched Init (HttpResponse 503)) demo_syncing) = []"
proof -
  have h: "SyncFetch Init \<in> set (pending demo_syncing) \<and> \<not> ok 503 \<and> isOnline demo_syncing"
    by (simp add: demo_syncing_eval ok_def)
  have p: "remove1 (SyncFetch Init) (pending demo_syncing) = []"
    by (simp add: demo_syncing_eval)
  from h p sync_failure_atomic
         [where w = Init and s = demo_syncing and r = "HttpResponse 503" and status = 503
            and D = demo_D]
  show ?thesis by simp
qed

subsection \<open>Identifiers\<close>

lemma findIndex_None: "(findIndex P xs = None) = (\<forall>x \<in> set xs. \<not> P x)"
  by (induction xs) (auto split: option.splits)

lemma findIndex_Some: "findIndex P xs = Some i \<Longrightarrow> i < length xs \<and> P (xs ! i)"
  by (induction xs arbitrary: i) (auto split: option.splits if_splits)

lemma syncWithServer_frame [simp]:
  "reminders (syncWithServer w s) = reminders s"
  "localStorage (syncWithServer w s) = localStorage s"
  "dialogs (syncWithServer w s) = dialogs s"
  "editingId (syncWithServer w s) = editingId s"
  by (simp_all add: syncWithServer_def)

lemma cancelEdit_frame [simp]:
  "reminders (cancelEdit s) = reminders s"
  "localStorage (cancelEdit s) = localStorage s"
  "isOnline (cancelEdit s) = isOnline s"
  by (simp_all add: cancelEdit_def)

text \<open>
  C10. For an id that no stored reminder has, \<^verbatim>\<open>deleteReminder\<close> and
  \<^verbatim>\<open>editReminder\<close> return the state as it is: no dialog, no write, no request. When no
  stored reminder has the id being edited, \<^verbatim>\<open>saveEdit\<close> leaves the reminders, the
  storage, the requests and the id being edited as they are.
\<close>

theorem absent_id_noop:
  "((\<forall>r \<in> set (reminders s). ident r \<noteq> i)
      \<longrightarrow> deleteReminder i answer s = s \<and> editReminder i s = s)
   \<and> ((\<forall>r \<in> set (reminders s). Some (ident r) \<noteq> editingId s)
      \<longrightarrow> reminders (saveEdit e s) = reminders s
        \<and> localStorage (saveEdit e s) = localStorage s
        \<and> requests (saveEdit e s) = requests s
        \<and> pending (saveEdit e s) = pending s
        \<and> editingId (saveEdit e s) = editingId s)"
proof -
  have a: "find (\<lambda>r. ident r = i) (reminders s) = None"
    if "\<forall>r \<in> set (reminders s). ident r \<noteq> i"
    using that by (simp add: find_None_iff)
  have b: "findIndex (\<lambda>r. Some (ident r) = editingId s) (reminders s) = None"
    if "\<forall>r \<in> set (reminders s). Some (ident r) \<noteq> editingId s"
    using that by (simp add: findIndex_None)
  show ?thesis
    using a b by (auto simp: deleteReminder_def editReminder_def saveEdit_def Let_def)
qed


theorem absent_id_noop_witness:
  "deleteReminder 2 True ((fresh 0)\<lparr>reminders := [demo_reminder 1 ''2024-01-01T10:00'' ''once'']\<rparr>)
     = (fresh 0)\<lparr>reminders := [demo_reminder 1 ''2024-01-01T10:00'' ''once'']\<rparr>
   \<and> editReminder 2 ((fresh 0)\<lparr>reminders := [demo_reminder 1 ''2024-01-01T10:00'' ''once'']\<rparr>)
     = (fresh 0)\<lparr>reminders := [demo_reminder 1 ''2024-01-01T10:00'' ''once'']\<rparr>
   \<and> reminders (saveEdit
         \<lparr>edit_dateTime = ''2024-01-01T10:01'', edit_note = ''call Al'', edit_repeat = ''daily'',
          edit_modified = ''2023-12-31T05:20:00.000Z''\<rparr>
         ((fresh 0)\<lparr>reminders := [demo_reminder 1 ''2024-01-01T10:00'' ''once''],
                     editingId := Some 2\<rparr>))
     = [demo_reminder 1 ''2024-01-01T10:00'' ''once'']"
proof -
  let ?s = "(fresh 0)\<lparr>reminders := [demo_reminder 1 ''2024-01-01T10:00'' ''once'']\<rparr>"
  let ?e = "\<lparr>edit_dateTime = ''2024-01-01T10:01'', edit_note = ''call Al'',
             edit_repeat = ''daily'', edit_modified = ''2023-12-31T05:20:00.000Z''\<rparr>"
  have h1: "\<forall>r \<in> set (reminders ?s). ident r \<noteq> 2"
    by (simp add: demo_reminder_def)
  have h2: "\<forall>r \<in> set (reminders (?s\<lparr>editingId := Some 2\<rparr>)).
              Some (ident r) \<noteq> editingId (?s\<lparr>editingId := Some 2\<rparr>)"
    by (simp add: demo_reminder_def)
  from h1 absent_id_noop [where s = ?s and i = 2 and answer = True]
  have a: "deleteReminder 2 True ?s = ?s \<and> editReminder 2 ?s = ?s" by blast
  from h2 absent_id_noop [where s = "?s\<lparr>editingId := Some 2\<rparr>" and e = ?e]
  have b: "reminders (saveEdit ?e (?s\<lparr>editingId := Some 2\<rparr>))
             = reminders (?s\<lparr>editingId := Some 2\<rparr>)" by blast
  from a b show ?thesis by simp
qed

lemma reminders_addReminder:
  "reminders (addReminder D i s) = reminders s
   \<or> reminders (addReminder D i s) = reminders s @
        [\<lparr>ident = add_id i, dateTime = add_dateTime i, note_text = trim (add_note i),
          repeat = add_repeat i, created = add_created i, modified = None\<rparr>]"
  by (simp add: addReminder_def Let_def)

lemma idents_saveEdit: "map ident (reminders (saveEdit e s)) = map ident (reminders s)"
proof (cases "findIndex (\<lambda>r. Some (ident r) = editingId s) (reminders s)")
  case None
  then show ?thesis by (simp add: saveEdit_def Let_def)
next
  case (Some k)
  from findIndex_Some [OF Some] have k: "k < length (reminders s)" by simp
  have "map ident ((reminders s)[k := (reminders s ! k)\<lparr>dateTime := d, note_text := n,
          repeat := p, modified := m\<rparr>]) = map ident (reminders s)" for d n p m
    using k by (simp add: map_update list_update_same_conv)
  with Some show ?thesis by (simp add: saveEdit_def Let_def)
qed

lemma reminders_deleteReminder:
  "reminders (deleteReminder j a s) = reminders s
   \<or> reminders (deleteReminder j a s) = filter (\<lambda>r. ident r \<noteq> j) (reminders s)"
  by (simp add: deleteReminder_def Let_def split: option.splits)

lemma strict_idents_filter:
  "sorted_wrt (<) (map ident rs) \<Longrightarrow> sorted_wrt (<) (map ident (filter P rs))"
  by (induction rs) auto

text \<open>
  C9, as amended. The id of a new reminder is the reading of \<^verbatim>\<open>Date.now()\<close> at its
  creation; \<^verbatim>\<open>saveEdit\<close> changes no id, and deletion and the sweep only remove
  reminders. The ids stay strictly increasing in the order of creation, hence distinct,
  whenever the clock reads more at a creation than every id in the store.
\<close>

theorem reminder_ids:
  "(reminders (addReminder D i s) = reminders s
      \<or> (\<exists>r. reminders (addReminder D i s) = reminders s @ [r] \<and> ident r = add_id i))
   \<and> map ident (reminders (saveEdit e s)) = map ident (reminders s)
   \<and> (sorted_wrt (<) (map ident (reminders s)) \<longrightarrow>
        sorted_wrt (<) (map ident (reminders (deleteReminder j a s)))
        \<and> sorted_wrt (<) (map ident (reminders (cleanupPastReminders D now s))))
   \<and> (sorted_wrt (<) (map ident (reminders s))
        \<and> (\<forall>r \<in> set (reminders s). ident r < add_id i) \<longrightarrow>
        sorted_wrt (<) (map ident (reminders (addReminder D i s)))
        \<and> distinct (map ident (reminders (addReminder D i s))))"
proof -
  have add: "reminders (addReminder D i s) = reminders s
      \<or> (\<exists>r. reminders (addReminder D i s) = reminders s @ [r] \<and> ident r = add_id i)"
    using reminders_addReminder [of D i s] by auto
  have del: "sorted_wrt (<) (map ident (reminders (deleteReminder j a s)))"
    if "sorted_wrt (<) (map ident (reminders s))"
    using that reminders_deleteReminder [of j a s] by (auto intro: strict_idents_filter)
  have sweep: "sorted_wrt (<) (map ident (reminders (cleanupPastReminders D now s)))"
    if "sorted_wrt (<) (map ident (reminders s))"
    using that by (simp add: reminders_cleanupPastReminders strict_idents_filter)
  have grow: "sorted_wrt (<) (map ident (reminders (addReminder D i s)))"
    if "sorted_wrt (<) (map ident (reminders s))"
      and "\<forall>r \<in> set (reminders s). ident r < add_id i"
    using that add by (auto simp: sorted_wrt_append)
  have dist: "distinct (map ident (reminders (addReminder D i s)))"
    if "sorted_wrt (<) (map ident (reminders s))"
      and "\<forall>r \<in> set (reminders s). ident r < add_id i"
    using grow [OF that] strict_sorted_iff by blast
  from add idents_saveEdit del sweep grow dist show ?thesis by blast
qed

lemma demo_note: "trim '' call Bob '' = ''call Bob''"
  by (simp add: trim_def trimStart_def trimEnd_def strip_all.simps white_space_def)

lemma demo_input_added:
  "i < 1704103200000 \<Longrightarrow>
     map ident (reminders (addReminder demo_D (demo_input i) s)) = map ident (reminders s) @ [i]"
  by (simp add: addReminder_def demo_input_def demo_D_def Let_def demo_note)

theorem reminder_ids_witness:
  "sorted_wrt (<) (map ident (reminders (addReminder demo_D (demo_input 1704000000000) (fresh 0))))
   \<and> map ident (reminders (addReminder demo_D (demo_input 1704000005000)
        (addReminder demo_D (demo_input 1704000000000) (fresh 0))))
      = [1704000000000, 1704000005000]
   \<and> distinct (map ident (reminders (addReminder demo_D (demo_input 1704000005000)
        (addReminder demo_D (demo_input 1704000000000) (fresh 0)))))"
proof -
  let ?s1 = "addReminder demo_D (demo_input 1704000000000) (fresh 0)"
  have r1: "map ident (reminders ?s1) = [1704000000000]"
    by (simp add: demo_input_added) (simp add: fresh_def)
  have r2: "map ident (reminders (addReminder demo_D (demo_input 1704000005000) ?s1))
      = [1704000000000, 1704000005000]"
    by (simp add: demo_input_added) (simp add: fresh_def)
  have i: "add_id (demo_input 1704000005000) = 1704000005000"
    by (simp add: demo_input_def)
  have "\<forall>r \<in> set (reminders ?s1). ident r \<in> set (map ident (reminders ?s1))"
    by simp
  then have "\<forall>r \<in> set (reminders ?s1). ident r < 1704000005000"
    unfolding r1 by simp
  moreover have "sorted_wrt (<) (map ident (reminders ?s1))"
    unfolding r1 by simp
  ultimately have h: "sorted_wrt (<) (map ident (reminders ?s1))
      \<and> (\<forall>r \<in> set (reminders ?s1). ident r < add_id (demo_input 1704000005000))"
    unfolding i by blast
  from h reminder_ids [where s = ?s1 and D = demo_D and i = "demo_input 1704000005000"]
  have "distinct (map ident (reminders (addReminder demo_D (demo_input 1704000005000) ?s1)))"
    by blast
  with r2 h show ?thesis by simp
qed

text \<open>
  C9, as stated, fails: two reminders created at one reading of the clock have one id.
\<close>

theorem reminder_ids_counterexample:
  "map ident (reminders (addReminder demo_D (demo_input 1704000000000)
      (addReminder demo_D (demo_input 1704000000000) (fresh 0))))
    = [1704000000000, 1704000000000]
   \<and> \<not> distinct (map ident (reminders (addReminder demo_D (demo_input 1704000000000)
      (addReminder demo_D (demo_input 1704000000000) (fresh 0)))))"
proof -
  have "map ident (reminders (addReminder demo_D (demo_input 1704000000000)
      (addReminder demo_D (demo_input 1704000000000) (fresh 0))))
      = [1704000000000, 1704000000000]"
    by (simp add: demo_input_added) (simp add: fresh_def)
  then show ?thesis by simp
qed

subsection \<open>Connectivity\<close>

lemma isOnline_syncWithServer [simp]: "isOnline (syncWithServer w s) = isOnline s"
  by (simp add: syncWithServer_def)

lemma isOnline_enable_catch_attempts:
  "isOnline (enableNotifications s) = isOnline s"
  "isOnline (caught (enable_answered p s)) = isOnline s"
  "isOnline (caught (enable_vapid_fetched r s)) = isOnline s"
  "isOnline (caught (enable_vapid_jsoned v s)) = isOnline s"
  "isOnline (caught (enable_subscribed u s)) = isOnline s"
  "isOnline (caught (enable_subscribe_fetched r s)) = isOnline s"
  "isOnline (caught (enable_subscribe_jsoned j s)) = isOnline s"
  by (auto simp: enableNotifications_def enable_clicked_def enable_answered_def
      enable_permitted_def enable_vapid_fetched_def enable_vapid_jsoned_def
      enable_subscribed_def enable_subscribe_fetched_def enable_subscribe_jsoned_def
      Let_def split: fetch_result.splits vapid_json.splits sum.splits option.splits)

lemma isOnline_reminder_operations:
  "isOnline (addReminder D a s) = isOnline s"
  "isOnline (editReminder i s) = isOnline s"
  "isOnline (saveEdit e s) = isOnline s"
  "isOnline (deleteReminder i b s) = isOnline s"
  "isOnline (cleanupPastReminders D now s) = isOnline s"
  by (auto simp: addReminder_def editReminder_def saveEdit_def deleteReminder_def
      cleanupPastReminders_def Let_def split: option.splits)

lemma isOnline_startup:
  "isOnline (startup sw s) = isOnline s"
  "isOnline (startup_registered r s) = isOnline s"
  "isOnline (connectToServer w s) = isOnline s"
  by (auto simp: startup_def startup_registered_def connectToServer_def Let_def
      split: sum.splits)

lemma online_after_step:
  assumes "isOnline (step D e s)" and "\<not> isOnline s"
  shows "probe_succeeded e"
proof (cases e)
  case (ProbeJsoned w j)
  with assms show ?thesis
    by (cases j)
       (auto simp: probe_succeeded_def resume_def connectToServer_jsoned_def Let_def
         split: if_splits)
next
  case (ProbeFetched w r)
  with assms show ?thesis
    by (auto simp: resume_def connectToServer_fetched_def
        split: if_splits fetch_result.splits)
next
  case (SyncFetched w r)
  with assms show ?thesis
    by (auto simp: resume_def syncWithServer_fetched_def
        split: if_splits fetch_result.splits)
next
  case (SyncJsoned w j)
  with assms show ?thesis
    by (auto simp: resume_def syncWithServer_jsoned_def sync_finally_def
        split: if_splits sum.splits)
qed (use assms in \<open>auto simp: resume_def isOnline_enable_catch_attempts
      isOnline_reminder_operations isOnline_startup retry_timer_def online_event_def
      offline_event_def visibilitychange_def cancelEdit_def split: if_splits\<close>)

lemma offline_until_probe:
  "\<not> isOnline s \<Longrightarrow> \<forall>e \<in> set es. \<not> probe_succeeded e \<Longrightarrow> \<not> isOnline (run D es s)"
proof (induction es arbitrary: s)
  case Nil
  then show ?case by simp
next
  case (Cons e es)
  from Cons.prems have "\<not> isOnline (step D e s)"
    using online_after_step [of D e s] by auto
  with Cons show ?case by simp
qed

lemma probe_success_online:
  "data \<noteq> JNull \<Longrightarrow>
     isOnline (connectToServer_jsoned w (Inr data) s)
     \<and> connectToServer_jsoned w (Inr data) s =
         syncWithServer w (updateNotificationUI
           (updateStatus (sym_green @ '' Online - Server connected'') ''online''
             (s\<lparr>isOnline := True\<rparr>)))"
  by (simp add: connectToServer_jsoned_def Let_def)

lemma probe_failure_offline:
  "\<not> isOnline (connectToServer_fetched w (NetworkError m) s)"
  "\<not> ok status \<Longrightarrow> \<not> isOnline (connectToServer_fetched w (HttpResponse status) s)"
  "\<not> isOnline (connectToServer_jsoned w (Inl m) s)"
  "\<not> isOnline (offline_event s)"
  by (simp_all add: connectToServer_fetched_def connectToServer_jsoned_def offline_event_def)

text \<open>
  C5, at a probe answered with a 2xx status and the JSON body \<^verbatim>\<open>null\<close>: reading
  \<^verbatim>\<open>data.message\<close> for the log raises after the state went online, the \<^verbatim>\<open>catch\<close>
  block takes the state offline again, and no sync is called. For every other JSON body
  the lemmas above give what the claim says: the state starts offline and stays so until
  a probe succeeds (\<open>offline_until_probe\<close>), a successful probe leaves it online and
  calls the sync (\<open>probe_success_online\<close>), a failed probe and the offline event leave
  it offline (\<open>probe_failure_offline\<close>).
\<close>

theorem probe_null_body_offline:
  "\<not> isOnline (connectToServer_jsoned w (Inr JNull) s)
   \<and> requests (connectToServer_jsoned w (Inr JNull) s) = requests s
   \<and> pending (connectToServer_jsoned w (Inr JNull) s) = pending s
   \<and> \<not> isOnline (run demo_D
         [DOMContentLoaded False, ProbeFetched Init (HttpResponse 200),
          ProbeJsoned Init (Inr JNull)] (fresh 0))
   \<and> requests (run demo_D
         [DOMContentLoaded False, ProbeFetched Init (HttpResponse 200),
          ProbeJsoned Init (Inr JNull)] (fresh 0)) = [Fetch ''GET'' serverUrl None]"
  by (simp add: connectToServer_jsoned_def Let_def fresh_def startup_def
      loadLocalReminders_def getItem_def connectToServer_def resume_def
      connectToServer_fetched_def ok_def init_tail_def)

subsection \<open>Subscription set-up\<close>

lemma getItem_put: "getItem (put k v st) k' = (if k' = k then Some v else getItem st k')"
  by (induction st) (auto simp: getItem_def)

lemma getItem_setItem:
  "setItem q k v st = Some st' \<Longrightarrow> getItem st' k' = (if k' = k then Some v else getItem st k')"
  by (auto simp: setItem_def getItem_put split: if_splits)

lemma enabled_flag_saveLocalReminders [simp]:
  "getItem (localStorage (saveLocalReminders s)) ''notifications_enabled''
     = getItem (localStorage s) ''notifications_enabled''"
  by (auto simp: saveLocalReminders_def getItem_setItem split: option.splits)

lemma localStorage_aborted:
  "aborted (enable_clicked s) \<Longrightarrow> localStorage (caught (enable_clicked s)) = localStorage s"
  "aborted (enable_answered p s) \<Longrightarrow> localStorage (caught (enable_answered p s)) = localStorage s"
  "aborted (enable_vapid_fetched r s) \<Longrightarrow>
     localStorage (caught (enable_vapid_fetched r s)) = localStorage s"
  "aborted (enable_vapid_jsoned v s) \<Longrightarrow>
     localStorage (caught (enable_vapid_jsoned v s)) = localStorage s"
  "aborted (enable_subscribed u s) \<Longrightarrow>
     localStorage (caught (enable_subscribed u s)) = localStorage s"
  "aborted (enable_subscribe_fetched r s) \<Longrightarrow>
     localStorage (caught (enable_subscribe_fetched r s)) = localStorage s"
  "aborted (enable_subscribe_jsoned j s) \<Longrightarrow>
     localStorage (caught (enable_subscribe_jsoned j s)) = localStorage s"
  by (auto simp: enable_clicked_def enable_answered_def
      enable_permitted_def enable_vapid_fetched_def enable_vapid_jsoned_def
      enable_subscribed_def enable_subscribe_fetched_def enable_subscribe_jsoned_def
      Let_def split: fetch_result.splits vapid_json.splits sum.splits option.splits
      if_splits)

lemma localStorage_early_pieces:
  "localStorage (enableNotifications s) = localStorage s"
  "localStorage (caught (enable_answered p s)) = localStorage s"
  "localStorage (caught (enable_vapid_fetched r s)) = localStorage s"
  "localStorage (caught (enable_vapid_jsoned v s)) = localStorage s"
  "localStorage (caught (enable_subscribed u s)) = localStorage s"
  "localStorage (caught (enable_subscribe_fetched r s)) = localStorage s"
  "localStorage (caught (enable_subscribe_jsoned (Inl m) s)) = localStorage s"
  by (auto simp: enableNotifications_def enable_clicked_def enable_answered_def
      enable_permitted_def enable_vapid_fetched_def enable_vapid_jsoned_def
      enable_subscribed_def enable_subscribe_fetched_def enable_subscribe_jsoned_def
      Let_def split: fetch_result.splits vapid_json.splits sum.splits option.splits)

lemma localStorage_reminder_operations:
  "getItem (localStorage (addReminder D a s)) ''notifications_enabled''
     = getItem (localStorage s) ''notifications_enabled''"
  "localStorage (editReminder i s) = localStorage s"
  "getItem (localStorage (saveEdit e s)) ''notifications_enabled''
     = getItem (localStorage s) ''notifications_enabled''"
  "getItem (localStorage (deleteReminder i b s)) ''notifications_enabled''
     = getItem (localStorage s) ''notifications_enabled''"
  "getItem (localStorage (cleanupPastReminders D now s)) ''notifications_enabled''
     = getItem (localStorage s) ''notifications_enabled''"
  by (auto simp: addReminder_def editReminder_def saveEdit_def deleteReminder_def
      cleanupPastReminders_def Let_def split: option.splits)

lemma localStorage_connectivity:
  "localStorage (startup sw s) = localStorage s"
  "localStorage (startup_registered r s) = localStorage s"
  "localStorage (connectToServer w s) = localStorage s"
  "localStorage (connectToServer_fetched w f s) = localStorage s"
  "localStorage (connectToServer_jsoned w j s) = localStorage s"
  "localStorage (syncWithServer_fetched w f s) = localStorage s"
  "localStorage (syncWithServer_jsoned w j s) = localStorage s"
  "localStorage (offline_event s) = localStorage s"
  by (auto simp: startup_def startup_registered_def connectToServer_def
      connectToServer_fetched_def connectToServer_jsoned_def syncWithServer_fetched_def
      syncWithServer_jsoned_def offline_event_def Let_def
      split: sum.splits fetch_result.splits)

lemma enabled_flag_written:
  assumes "getItem (localStorage (step D e s)) ''notifications_enabled''
             \<noteq> getItem (localStorage s) ''notifications_enabled''"
  shows "(\<exists>result. e = SubscribeJsoned (Inr result)) \<and> SubscribeJson \<in> set (pending s)"
proof (cases e)
  case (SubscribeJsoned j)
  with assms show ?thesis
    by (cases j) (auto simp: resume_def localStorage_early_pieces split: if_splits)
qed (use assms in \<open>auto simp: resume_def localStorage_early_pieces
      localStorage_reminder_operations localStorage_connectivity retry_timer_def
      online_event_def visibilitychange_def cancelEdit_def split: if_splits\<close>)


lemma pending_enable_pieces:
  "pending (enableNotifications s) =
     pending s @ (if \<not> swRegistration s then []
                  else if notificationPermission s = Default then [PermissionPrompt]
                  else if notificationPermission s = Granted \<and> isOnline s then [VapidFetch]
                  else [])"
  "pending (caught (enable_answered p s)) =
     pending s @ (if p = Granted \<and> isOnline s then [VapidFetch] else [])"
  "pending (caught (enable_vapid_fetched r s)) =
     pending s @ (case r of HttpResponse status \<Rightarrow> if ok status then [VapidJson] else []
                  | NetworkError m \<Rightarrow> [])"
  "pending (caught (enable_vapid_jsoned v s)) =
     pending s @ (case v of
                    VapidKey k \<Rightarrow> if urlBase64ToUint8Array k \<noteq> None then [PushSubscribe] else []
                  | _ \<Rightarrow> [])"
  "pending (caught (enable_subscribed u s)) =
     pending s @ (case u of Inr sub \<Rightarrow> [SubscribeFetch] | Inl m \<Rightarrow> [])"
  "pending (caught (enable_subscribe_fetched r s)) =
     pending s @ (case r of HttpResponse status \<Rightarrow> if ok status then [SubscribeJson] else []
                  | NetworkError m \<Rightarrow> [])"
  "pending (caught (enable_subscribe_jsoned j s)) = pending s"
  by (auto simp: enableNotifications_def enable_clicked_def enable_answered_def
      enable_permitted_def enable_vapid_fetched_def enable_vapid_jsoned_def
      enable_subscribed_def enable_subscribe_fetched_def enable_subscribe_jsoned_def
      Let_def split: fetch_result.splits vapid_json.splits sum.splits option.splits)

lemma pending_other_pieces:
  "enable_cont c \<Longrightarrow> c \<in> set (pending (syncWithServer w s)) \<Longrightarrow> c \<in> set (pending s)"
  "enable_cont c \<Longrightarrow> c \<in> set (pending (connectToServer w s)) \<Longrightarrow> c \<in> set (pending s)"
  "enable_cont c \<Longrightarrow> c \<in> set (pending (connectToServer_fetched w f s)) \<Longrightarrow> c \<in> set (pending s)"
  "enable_cont c \<Longrightarrow> c \<in> set (pending (syncWithServer_fetched w f s)) \<Longrightarrow> c \<in> set (pending s)"
  "enable_cont c \<Longrightarrow> c \<in> set (pending (syncWithServer_jsoned w j s)) \<Longrightarrow> c \<in> set (pending s)"
  "enable_cont c \<Longrightarrow> c \<in> set (pending (startup sw s)) \<Longrightarrow> c \<in> set (pending s)"
  "enable_cont c \<Longrightarrow> c \<in> set (pending (startup_registered r s)) \<Longrightarrow> c \<in> set (pending s)"
  "enable_cont c \<Longrightarrow> c \<in> set (pending (offline_event s)) \<Longrightarrow> c \<in> set (pending s)"
  by (auto simp: enable_cont_def syncWithServer_def connectToServer_def
      connectToServer_fetched_def syncWithServer_fetched_def syncWithServer_jsoned_def
      startup_def startup_registered_def offline_event_def Let_def
      split: fetch_result.splits sum.splits if_splits)

lemma pending_connect_jsoned:
  "enable_cont c \<Longrightarrow> c \<in> set (pending (connectToServer_jsoned w j s)) \<Longrightarrow> c \<in> set (pending s)"
  by (cases j)
     (auto simp: connectToServer_jsoned_def Let_def dest!: pending_other_pieces(1)
       split: if_splits)

lemma pending_reminder_operations:
  "enable_cont c \<Longrightarrow> c \<in> set (pending (addReminder D a s)) \<Longrightarrow> c \<in> set (pending s)"
  "enable_cont c \<Longrightarrow> c \<in> set (pending (saveEdit e s)) \<Longrightarrow> c \<in> set (pending s)"
  "enable_cont c \<Longrightarrow> c \<in> set (pending (deleteReminder i b s)) \<Longrightarrow> c \<in> set (pending s)"
  "pending (editReminder i s) = pending s"
  "pending (cleanupPastReminders D now s) = pending s"
  "pending (cancelEdit s) = pending s"
  by (auto simp: addReminder_def saveEdit_def deleteReminder_def editReminder_def
      cleanupPastReminders_def cancelEdit_def Let_def
      dest!: pending_other_pieces(1) split: option.splits if_splits)

lemma resumed_other:
  assumes "c \<in> set (pending (resume c' k s))" and "c \<notin> set (pending s)"
    and "\<And>s'. c \<in> set (pending (k s')) \<Longrightarrow> c \<in> set (pending s')"
  shows False
proof (cases "c' \<in> set (pending s)")
  case True
  with assms(1) have "c \<in> set (pending (k (s\<lparr>pending := remove1 c' (pending s)\<rparr>)))"
    by (simp add: resume_def)
  from assms(3) [OF this] have "c \<in> set (remove1 c' (pending s))" by simp
  with assms(2) show False by (auto dest: notin_set_remove1)
next
  case False
  with assms(1,2) show False by (simp add: resume_def)
qed


lemma set_remove1_D: "c \<in> set (remove1 x xs) \<Longrightarrow> c \<in> set xs"
  by (metis notin_set_remove1)

lemma setup_order:
  assumes new: "c \<in> set (pending (step D e s))" "c \<notin> set (pending s)"
    and c: "enable_cont c"
  shows "(c = PermissionPrompt \<longrightarrow>
            e = EnableClick \<and> swRegistration s \<and> notificationPermission s = Default)
       \<and> (c = VapidFetch \<longrightarrow>
            isOnline s
            \<and> (e = EnableClick \<and> swRegistration s \<and> notificationPermission s = Granted
               \<or> e = PermissionAnswered Granted \<and> PermissionPrompt \<in> set (pending s)))
       \<and> (c = VapidJson \<longrightarrow>
            (\<exists>status. e = VapidFetched (HttpResponse status) \<and> ok status)
            \<and> VapidFetch \<in> set (pending s))
       \<and> (c = PushSubscribe \<longrightarrow>
            (\<exists>k. e = VapidJsoned (VapidKey k) \<and> urlBase64ToUint8Array k \<noteq> None)
            \<and> VapidJson \<in> set (pending s))
       \<and> (c = SubscribeFetch \<longrightarrow>
            (\<exists>subscription. e = PushSubscribed (Inr subscription))
            \<and> PushSubscribe \<in> set (pending s))
       \<and> (c = SubscribeJson \<longrightarrow>
            (\<exists>status. e = SubscribeFetched (HttpResponse status) \<and> ok status)
            \<and> SubscribeFetch \<in> set (pending s))"
proof (cases e)
  case (DOMContentLoaded sw)
  with new c show ?thesis by (auto dest: pending_other_pieces)
next
  case (SwRegistered r)
  with new c show ?thesis
    by (auto dest!: resumed_other dest: pending_other_pieces)
next
  case (ProbeFetched w r)
  with new c show ?thesis
    by (auto dest!: resumed_other dest: pending_other_pieces)
next
  case (ProbeJsoned w j)
  with new c show ?thesis
    by (auto dest!: resumed_other dest: pending_connect_jsoned)
next
  case (SyncFetched w r)
  with new c show ?thesis
    by (auto dest!: resumed_other dest: pending_other_pieces)
next
  case (SyncJsoned w j)
  with new c show ?thesis
    by (auto dest!: resumed_other dest: pending_other_pieces)
next
  case RetryTimer
  with new c show ?thesis
    by (auto simp: retry_timer_def dest: pending_other_pieces split: if_splits)
next
  case OnlineEvent
  with new c show ?thesis
    by (auto simp: online_event_def dest: pending_other_pieces)
next
  case OfflineEvent
  with new c show ?thesis by (auto dest: pending_other_pieces)
next
  case (VisibilityChange h)
  with new c show ?thesis
    by (auto simp: visibilitychange_def dest: pending_other_pieces split: if_splits)
next
  case (AddReminder a)
  with new c show ?thesis by (auto dest: pending_reminder_operations(1-3))
next
  case (EditReminder i)
  with new c show ?thesis by (auto simp: pending_reminder_operations(4-6))
next
  case (SaveEdit i)
  with new c show ?thesis by (auto dest: pending_reminder_operations(1-3))
next
  case CancelEdit
  with new c show ?thesis by (auto simp: pending_reminder_operations(4-6))
next
  case (DeleteReminder i b)
  with new c show ?thesis by (auto dest: pending_reminder_operations(1-3))
next
  case (CtrlEnter a i)
  with new c show ?thesis by (auto dest: pending_reminder_operations(1-3) split: if_splits)
next
  case Escape
  with new c show ?thesis by (auto simp: pending_reminder_operations(4-6) split: if_splits)
next
  case DebouncedSave
  with new c show ?thesis by auto
next
  case (CleanupTimer now)
  with new c show ?thesis by (auto simp: pending_reminder_operations(4-6))
next
  case EnableClick
  with new show ?thesis
    by (auto simp: pending_enable_pieces split: if_splits)
next
  case (PermissionAnswered p)
  with new show ?thesis
    by (auto simp: resume_def pending_enable_pieces split: if_splits dest: set_remove1_D)
next
  case (VapidFetched r)
  with new show ?thesis
    by (auto simp: resume_def pending_enable_pieces
        split: if_splits fetch_result.splits dest: set_remove1_D)
next
  case (VapidJsoned v)
  with new show ?thesis
    by (auto simp: resume_def pending_enable_pieces
        split: if_splits vapid_json.splits dest: set_remove1_D)
next
  case (PushSubscribed u)
  with new show ?thesis
    by (auto simp: resume_def pending_enable_pieces
        split: if_splits sum.splits dest: set_remove1_D)
next
  case (SubscribeFetched r)
  with new show ?thesis
    by (auto simp: resume_def pending_enable_pieces
        split: if_splits fetch_result.splits dest: set_remove1_D)
next
  case (SubscribeJsoned j)
  with new show ?thesis
    by (auto simp: resume_def pending_enable_pieces split: if_splits dest: set_remove1_D)
qed


lemma demo_key: "urlBase64ToUint8Array ''AQAB'' = Some [1, 0, 1]"
  by (simp add: urlBase64ToUint8Array_def atob_def strip_equals_def b64_alphabet_def Let_def)

lemma demo_subscribing_eval:
  "pending demo_subscribing = [SubscribeJson]
   \<and> localStorage demo_subscribing = []
   \<and> storageQuota demo_subscribing = 100
   \<and> notificationPermission demo_subscribing = Granted
   \<and> isOnline demo_subscribing
   \<and> requests demo_subscribing =
       [Fetch ''GET'' serverUrl None,
        Fetch ''POST'' (serverUrl @ ''/sync-reminders'') (Some (sync_body [])),
        Fetch ''GET'' (serverUrl @ ''/vapid-public-key'') None,
        PushManagerSubscribe [1, 0, 1],
        Fetch ''POST'' (serverUrl @ ''/subscribe'') (Some ''{}'')]"
  by (simp add: demo_subscribing_def fresh_def startup_def loadLocalReminders_def getItem_def
      connectToServer_def suspend_def fetch_def updateStatus_def showNotificationError_def
      resume_def startup_registered_def connectToServer_fetched_def ok_def
      connectToServer_jsoned_def Let_def updateNotificationUI_def syncWithServer_def
      syncWithServer_fetched_def syncWithServer_jsoned_def sync_finally_def init_tail_def
      enableNotifications_def enable_clicked_def enable_answered_def enable_permitted_def
      enable_vapid_fetched_def enable_vapid_jsoned_def demo_key enable_subscribed_def
      enable_subscribe_fetched_def)


lemma abort_causes:
  "\<not> swRegistration s \<Longrightarrow>
     aborted (enable_clicked s)
     \<and> notificationStatusText (enableNotifications s)
         = sym_cross @ '' Service Worker not available''"
  "swRegistration s \<Longrightarrow> notificationPermission s = Denied \<Longrightarrow>
     aborted (enable_clicked s)
     \<and> notificationStatusText (enableNotifications s)
         = sym_cross @ '' Notification permission denied''"
  "p \<noteq> Granted \<Longrightarrow>
     aborted (enable_answered p s)
     \<and> notificationStatusText (caught (enable_answered p s))
         = sym_cross @ '' Notification permission denied''"
  "swRegistration s \<Longrightarrow> notificationPermission s = Granted \<Longrightarrow> \<not> isOnline s \<Longrightarrow>
     aborted (enable_clicked s)
     \<and> notificationStatusText (enableNotifications s)
         = sym_cross @ '' Server not connected. Please wait for connection.''"
  "\<not> isOnline s \<Longrightarrow>
     aborted (enable_answered Granted s)
     \<and> notificationStatusText (caught (enable_answered Granted s))
         = sym_cross @ '' Server not connected. Please wait for connection.''"
  by (simp_all add: enableNotifications_def enable_clicked_def enable_answered_def
      enable_permitted_def enable_catch_def showNotificationError_def Let_def)

text \<open>
  C3. The set-up aborts with its own cause, in this order: no service worker
  registration; a permission that is not granted, whether it was decided before or
  answered at the prompt, also when the server is not connected; a server that is not
  connected. No piece of the sequence but the last writes the storage, and the last one
  leaves it as it is when it aborts. Over all events, the value stored under
  \<^verbatim>\<open>notifications_enabled\<close> changes only when the answer to the registration request has
  been read; and each suspension point of the sequence is reached only from the success of
  the step before it, so that point is reached only after every step has succeeded.
\<close>

theorem enable_setup_aborts:
  "(\<not> swRegistration s \<longrightarrow>
      aborted (enable_clicked s)
      \<and> notificationStatusText (enableNotifications s)
          = sym_cross @ '' Service Worker not available'')
   \<and> (swRegistration s \<and> notificationPermission s = Denied \<longrightarrow>
      aborted (enable_clicked s)
      \<and> notificationStatusText (enableNotifications s)
          = sym_cross @ '' Notification permission denied'')
   \<and> (p \<noteq> Granted \<longrightarrow>
      aborted (enable_answered p s)
      \<and> notificationStatusText (caught (enable_answered p s))
          = sym_cross @ '' Notification permission denied'')
   \<and> (swRegistration s \<and> notificationPermission s = Granted \<and> \<not> isOnline s \<longrightarrow>
      aborted (enable_clicked s)
      \<and> notificationStatusText (enableNotifications s)
          = sym_cross @ '' Server not connected. Please wait for connection.'')
   \<and> (\<not> isOnline s \<longrightarrow>
      aborted (enable_answered Granted s)
      \<and> notificationStatusText (caught (enable_answered Granted s))
          = sym_cross @ '' Server not connected. Please wait for connection.'')
   \<and> localStorage (enableNotifications s) = localStorage s
   \<and> localStorage (caught (enable_answered p s)) = localStorage s
   \<and> localStorage (caught (enable_vapid_fetched r s)) = localStorage s
   \<and> localStorage (caught (enable_vapid_jsoned v s)) = localStorage s
   \<and> localStorage (caught (enable_subscribed u s)) = localStorage s
   \<and> localStorage (caught (enable_subscribe_fetched r s)) = localStorage s
   \<and> (aborted (enable_subscribe_jsoned j s) \<longrightarrow>
      localStorage (caught (enable_subscribe_jsoned j s)) = localStorage s)
   \<and> (getItem (localStorage (step D e s)) ''notifications_enabled''
        \<noteq> getItem (localStorage s) ''notifications_enabled'' \<longrightarrow>
      (\<exists>result. e = SubscribeJsoned (Inr result)) \<and> SubscribeJson \<in> set (pending s))
   \<and> (c \<in> set (pending (step D e s)) \<and> c \<notin> set (pending s) \<and> enable_cont c \<longrightarrow>
      (c = PermissionPrompt \<longrightarrow>
         e = EnableClick \<and> swRegistration s \<and> notificationPermission s = Default)
      \<and> (c = VapidFetch \<longrightarrow>
         isOnline s
         \<and> (e = EnableClick \<and> swRegistration s \<and> notificationPermission s = Granted
            \<or> e = PermissionAnswered Granted \<and> PermissionPrompt \<in> set (pending s)))
      \<and> (c = VapidJson \<longrightarrow>
         (\<exists>status. e = VapidFetched (HttpResponse status) \<and> ok status)
         \<and> VapidFetch \<in> set (pending s))
      \<and> (c = PushSubscribe \<longrightarrow>
         (\<exists>k. e = VapidJsoned (VapidKey k) \<and> urlBase64ToUint8Array k \<noteq> None)
         \<and> VapidJson \<in> set (pending s))
      \<and> (c = SubscribeFetch \<longrightarrow>
         (\<exists>subscription. e = PushSubscribed (Inr subscription))
         \<and> PushSubscribe \<in> set (pending s))
      \<and> (c = SubscribeJson \<longrightarrow>
         (\<exists>status. e = SubscribeFetched (HttpResponse status) \<and> ok status)
         \<and> SubscribeFetch \<in> set (pending s)))"
proof -
  note causes = abort_causes(1) [of s] abort_causes(2) [of s] abort_causes(3) [of p s]
    abort_causes(4) [of s] abort_causes(5) [of s]
  note stored = localStorage_early_pieces(1) [of s] localStorage_early_pieces(2) [of p s]
    localStorage_early_pieces(3) [of r s] localStorage_early_pieces(4) [of v s]
    localStorage_early_pieces(5) [of u s] localStorage_early_pieces(6) [of r s]
    localStorage_aborted(7) [of j s]
  have written: "getItem (localStorage (step D e s)) ''notifications_enabled''
        \<noteq> getItem (localStorage s) ''notifications_enabled'' \<longrightarrow>
      (\<exists>result. e = SubscribeJsoned (Inr result)) \<and> SubscribeJson \<in> set (pending s)"
    using enabled_flag_written [of D e s] by blast
  have order: "c \<in> set (pending (step D e s)) \<and> c \<notin> set (pending s) \<and> enable_cont c \<longrightarrow>
      (c = PermissionPrompt \<longrightarrow>
         e = EnableClick \<and> swRegistration s \<and> notificationPermission s = Default)
      \<and> (c = VapidFetch \<longrightarrow>
         isOnline s
         \<and> (e = EnableClick \<and> swRegistration s \<and> notificationPermission s = Granted
            \<or> e = PermissionAnswered Granted \<and> PermissionPrompt \<in> set (pending s)))
      \<and> (c = VapidJson \<longrightarrow>
         (\<exists>status. e = VapidFetched (HttpResponse status) \<and> ok status)
         \<and> VapidFetch \<in> set (pending s))
      \<and> (c = PushSubscribe \<longrightarrow>
         (\<exists>k. e = VapidJsoned (VapidKey k) \<and> urlBase64ToUint8Array k \<noteq> None)
         \<and> VapidJson \<in> set (pending s))
      \<and> (c = SubscribeFetch \<longrightarrow>
         (\<exists>subscription. e = PushSubscribed (Inr subscription))
         \<and> PushSubscribe \<in> set (pending s))
      \<and> (c = SubscribeJson \<longrightarrow>
         (\<exists>status. e = SubscribeFetched (HttpResponse status) \<and> ok status)
         \<and> SubscribeFetch \<in> set (pending s))"
    using setup_order [of c D e s] by blast
  from causes stored show ?thesis
    by (intro conjI written order) blast+
qed

theorem enable_setup_aborts_witness:
  "notificationStatusText (enableNotifications (fresh 100))
     = sym_cross @ '' Service Worker not available''
   \<and> notificationStatusText (enableNotifications
        ((fresh 100)\<lparr>swRegistration := True, notificationPermission := Denied\<rparr>))
     = sym_cross @ '' Notification permission denied''
   \<and> notificationStatusText (enableNotifications
        ((fresh 100)\<lparr>swRegistration := True, notificationPermission := Granted\<rparr>))
     = sym_cross @ '' Server not connected. Please wait for connection.''
   \<and> notificationStatusText (caught (enable_answered Denied (fresh 100)))
     = sym_cross @ '' Notification permission denied''
   \<and> localStorage (caught (enable_subscribe_jsoned (Inl ''Unexpected token'') demo_subscribing))
     = localStorage demo_subscribing
   \<and> getItem (localStorage demo_subscribing) ''notifications_enabled'' = None
   \<and> getItem (localStorage (step demo_D (SubscribeJsoned (Inr (JObj []))) demo_subscribing))
        ''notifications_enabled'' = Some ''true''
   \<and> SubscribeJson \<in> set (pending demo_subscribing)
   \<and> PermissionPrompt \<in> set (pending (step demo_D EnableClick
        ((fresh 100)\<lparr>swRegistration := True, clickListener := True\<rparr>)))
   \<and> notificationPermission ((fresh 100)\<lparr>swRegistration := True, clickListener := True\<rparr>)
     = Default"
proof -
  let ?denied = "(fresh 100)\<lparr>swRegistration := True, notificationPermission := Denied\<rparr>"
  let ?granted = "(fresh 100)\<lparr>swRegistration := True, notificationPermission := Granted\<rparr>"
  let ?ready = "(fresh 100)\<lparr>swRegistration := True, clickListener := True\<rparr>"
  let ?e = "SubscribeJsoned (Inr (JObj []))"
  have h1: "\<not> swRegistration (fresh 100)" by (simp add: fresh_def)
  have h2: "swRegistration ?denied \<and> notificationPermission ?denied = Denied" by simp
  have h3: "swRegistration ?granted \<and> notificationPermission ?granted = Granted
      \<and> \<not> isOnline ?granted" by (simp add: fresh_def)
  have h4: "Denied \<noteq> Granted" by simp
  have h5: "aborted (enable_subscribe_jsoned (Inl ''Unexpected token'') demo_subscribing)"
    by (simp add: enable_subscribe_jsoned_def)
  have before: "getItem (localStorage demo_subscribing) ''notifications_enabled'' = None"
    by (simp add: demo_subscribing_eval getItem_def)
  have after: "getItem (localStorage (step demo_D ?e demo_subscribing))
      ''notifications_enabled'' = Some ''true''"
    by (simp add: demo_subscribing_eval resume_def enable_subscribe_jsoned_def setItem_def
        storage_size_def getItem_def)
  have h6: "getItem (localStorage (step demo_D ?e demo_subscribing)) ''notifications_enabled''
      \<noteq> getItem (localStorage demo_subscribing) ''notifications_enabled''"
    unfolding before after by simp
  have prompt: "PermissionPrompt \<in> set (pending (step demo_D EnableClick ?ready))"
    by (simp add: fresh_def enableNotifications_def enable_clicked_def Let_def)
  have h7: "PermissionPrompt \<in> set (pending (step demo_D EnableClick ?ready))
      \<and> PermissionPrompt \<notin> set (pending ?ready) \<and> enable_cont PermissionPrompt"
    using prompt by (simp add: fresh_def enable_cont_def)
  from h1 enable_setup_aborts [where s = "fresh 100"]
  have c1: "notificationStatusText (enableNotifications (fresh 100))
      = sym_cross @ '' Service Worker not available''" by blast
  from h2 enable_setup_aborts [where s = ?denied]
  have c2: "notificationStatusText (enableNotifications ?denied)
      = sym_cross @ '' Notification permission denied''" by blast
  from h3 enable_setup_aborts [where s = ?granted]
  have c3: "notificationStatusText (enableNotifications ?granted)
      = sym_cross @ '' Server not connected. Please wait for connection.''" by blast
  from h4 enable_setup_aborts [where s = "fresh 100" and p = Denied]
  have c4: "notificationStatusText (caught (enable_answered Denied (fresh 100)))
      = sym_cross @ '' Notification permission denied''" by blast
  from h5 enable_setup_aborts
            [where s = demo_subscribing and j = "Inl ''Unexpected token''"]
  have c5: "localStorage (caught (enable_subscribe_jsoned (Inl ''Unexpected token'')
      demo_subscribing)) = localStorage demo_subscribing" by blast
  from h6 enable_setup_aborts [where s = demo_subscribing and e = ?e and D = demo_D]
  have c6: "SubscribeJson \<in> set (pending demo_subscribing)" by blast
  from h7 enable_setup_aborts
            [where s = ?ready and e = EnableClick and D = demo_D and c = PermissionPrompt]
  have c7: "notificationPermission ?ready = Default" by blast
  from c1 c2 c3 c4 c5 before after c6 prompt c7 show ?thesis by blast
qed

subsection \<open>Fetch rule\<close>

lemma startsWith_iff: "startsWith s p = (\<exists>b. s = p @ b)"
  by (induction s p rule: startsWith.induct) auto

lemma str_includes_iff: "str_includes s p = (\<exists>a b. s = a @ p @ b)"
proof (induction s)
  case Nil
  then show ?case by auto
next
  case (Cons c cs)
  show ?case
  proof
    assume "str_includes (c # cs) p"
    then consider "startsWith (c # cs) p" | "str_includes cs p" by auto
    then show "\<exists>a b. c # cs = a @ p @ b"
    proof cases
      case 1
      then obtain b where "c # cs = p @ b" by (auto simp: startsWith_iff)
      then have "c # cs = [] @ p @ b" by simp
      then show ?thesis by blast
    next
      case 2
      with Cons obtain a b where "cs = a @ p @ b" by auto
      then have "c # cs = (c # a) @ p @ b" by simp
      then show ?thesis by blast
    qed
  next
    assume "\<exists>a b. c # cs = a @ p @ b"
    then obtain a b where ab: "c # cs = a @ p @ b" by blast
    show "str_includes (c # cs) p"
    proof (cases a)
      case Nil
      with ab have "startsWith (c # cs) p" by (auto simp: startsWith_iff)
      then show ?thesis by simp
    next
      case (Cons x xs)
      with ab have "cs = xs @ p @ b" by simp
      with Cons.IH have "str_includes cs p" by blast
      then show ?thesis by simp
    qed
  qed
qed

lemma after_scheme_suffix: "\<exists>pre. url = pre @ after_scheme url"
proof (induction url)
  case Nil
  then show ?case by simp
next
  case (Cons c cs)
  show ?case
  proof (cases "startsWith (c # cs) ''://''")
    case True
    have "c # cs = take 3 (c # cs) @ drop 3 (c # cs)" by (simp only: append_take_drop_id)
    with True show ?thesis by (metis after_scheme.simps(2))
  next
    case False
    from Cons obtain pre where "cs = pre @ after_scheme cs" by blast
    then have "c # cs = (c # pre) @ after_scheme cs" by simp
    with False show ?thesis by (metis after_scheme.simps(2))
  qed
qed

lemma url_authority_part: "\<exists>pre post. url = pre @ url_authority url @ post"
proof -
  obtain pre where "url = pre @ after_scheme url"
    using after_scheme_suffix by blast
  moreover have "after_scheme url = url_authority url
      @ dropWhile (\<lambda>c. c \<notin> set ''/?#'') (after_scheme url)"
    by (simp add: url_authority_def)
  ultimately show ?thesis by metis
qed

lemma pi_server_bypassed:
  assumes "pi_server_request url"
  shows "str_includes url ''192.168.'' \<and> str_includes url '':3001''"
proof -
  obtain pre post where url: "url = pre @ url_authority url @ post"
    using url_authority_part by blast
  from assms obtain b where b: "url_authority url = ''192.168.'' @ b"
    by (auto simp: pi_server_request_def Let_def startsWith_iff)
  from assms obtain e where "rev (url_authority url) = rev '':3001'' @ e"
    by (auto simp: pi_server_request_def Let_def endsWith_def startsWith_iff)
  then have "url_authority url = rev e @ '':3001''"
    by (metis rev_append rev_rev_ident)
  with url have "url = (pre @ rev e) @ '':3001'' @ post" by simp
  then have p: "str_includes url '':3001''"
    unfolding str_includes_iff by blast
  from url b have "url = pre @ ''192.168.'' @ (b @ post)" by simp
  then have h: "str_includes url ''192.168.''"
    unfolding str_includes_iff by blast
  from h p show ?thesis by simp
qed

lemma authority_is_pi_server:
  assumes "addressed_to_remote_authority url"
  shows "pi_server_request url"
proof -
  from assms obtain b where url: "url = ''https://192.168.0.147:3001/'' @ b"
    by (auto simp: addressed_to_remote_authority_def serverUrl_def startsWith_iff)
  have "url_authority url = ''192.168.0.147:3001''"
    by (simp add: url url_authority_def)
  then show ?thesis
    by (simp add: pi_server_request_def Let_def endsWith_def is_digit_def)
qed

text \<open>
  C8, as amended. In the words of the listener's comment, the requests that go through
  are those to a host \<^verbatim>\<open>192.168.x.x\<close> at port 3001. Every request under the remote
  authority's origin is one of them, and every one of them is passed through to the
  network, whatever the cache holds. Every request whose URL lacks \<^verbatim>\<open>192.168.\<close> or
  \<^verbatim>\<open>:3001\<close> is none of them, and is answered: from the cache when the cache has a
  response, else from the network, and with a response of status 408 made by the listener
  when the network request (or the cache lookup) fails.
\<close>

theorem fetch_rule:
  "(addressed_to_remote_authority url \<longrightarrow> pi_server_request url)
   \<and> (pi_server_request url \<longrightarrow> fetch_listener url cached network = PassThrough)
   \<and> (\<not> (str_includes url ''192.168.'' \<and> str_includes url '':3001'') \<longrightarrow>
        \<not> pi_server_request url
        \<and> (cached = Inr (Some response) \<longrightarrow>
           fetch_listener url cached network = FromCache response)
        \<and> (cached = Inr None \<and> network = Inr response \<longrightarrow>
           fetch_listener url cached network = FromNetwork response)
        \<and> (cached = Inr None \<and> network = Inl error \<longrightarrow>
           fetch_listener url cached network = Synthetic (Response ''Network error'' 408))
        \<and> (cached = Inl error \<longrightarrow>
           fetch_listener url cached network = Synthetic (Response ''Network error'' 408)))"
  using authority_is_pi_server [of url] pi_server_bypassed [of url]
  by (auto simp: fetch_listener_def split: sum.splits option.splits)

text \<open>
  C8, as stated, fails: a request to another host of the local network at port 3001 is not
  addressed to the remote authority, the cache has nothing for it and the network request
  fails; the listener passes it through instead of answering with status 408.
\<close>

theorem fetch_rule_counterexample:
  "\<not> addressed_to_remote_authority ''https://192.168.1.20:3001/status''
   \<and> fetch_listener ''https://192.168.1.20:3001/status'' (Inr None) (Inl ''Failed to fetch'')
      = PassThrough
   \<and> fetch_listener ''https://192.168.1.20:3001/status'' (Inr None) (Inl ''Failed to fetch'')
      \<noteq> Synthetic (Response ''Network error'' 408)"
  by (simp add: addressed_to_remote_authority_def serverUrl_def fetch_listener_def)

theorem fetch_rule_witness:
  "addressed_to_remote_authority ''https://192.168.0.147:3001/sync-reminders''
   \<and> pi_server_request ''https://192.168.0.147:3001/sync-reminders''
   \<and> fetch_listener ''https://192.168.0.147:3001/sync-reminders''
        (Inr None) (Inl ''Failed to fetch'') = PassThrough
   \<and> pi_server_request ''https://192.168.1.20:3001/status''
   \<and> fetch_listener ''https://192.168.1.20:3001/status''
        (Inr None) (Inl ''Failed to fetch'') = PassThrough
   \<and> \<not> str_includes ''https://reminders.example/app.js'' ''192.168.''
   \<and> fetch_listener ''https://reminders.example/app.js''
        (Inr (Some (Response ''cached script'' 200))) (Inl ''Failed to fetch'')
      = FromCache (Response ''cached script'' 200)
   \<and> fetch_listener ''https://reminders.example/favicon.ico''
        (Inr None) (Inr (Response ''icon'' 200))
      = FromNetwork (Response ''icon'' 200)
   \<and> fetch_listener ''https://reminders.example/favicon.ico'' (Inr None) (Inl ''Failed to fetch'')
      = Synthetic (Response ''Network error'' 408)"
proof -
  let ?pi = "''https://192.168.0.147:3001/sync-reminders''"
  let ?lan = "''https://192.168.1.20:3001/status''"
  let ?js = "''https://reminders.example/app.js''"
  let ?ico = "''https://reminders.example/favicon.ico''"
  have h1: "addressed_to_remote_authority ?pi"
    by (simp add: addressed_to_remote_authority_def serverUrl_def)
  have h2: "pi_server_request ?lan"
    by (simp add: pi_server_request_def url_authority_def Let_def endsWith_def is_digit_def)
  have h3: "\<not> str_includes ?js ''192.168.''" by simp
  then have h3': "\<not> (str_includes ?js ''192.168.'' \<and> str_includes ?js '':3001'')" by blast
  have "\<not> str_includes ?ico ''192.168.''" by simp
  then have h4: "\<not> (str_includes ?ico ''192.168.'' \<and> str_includes ?ico '':3001'')" by blast
  from h1 fetch_rule [where url = ?pi and cached = "Inr None"
      and network = "Inl ''Failed to fetch''"]
  have c1: "pi_server_request ?pi
      \<and> fetch_listener ?pi (Inr None) (Inl ''Failed to fetch'') = PassThrough" by blast
  from h2 fetch_rule [where url = ?lan and cached = "Inr None"
      and network = "Inl ''Failed to fetch''"]
  have c2: "fetch_listener ?lan (Inr None) (Inl ''Failed to fetch'') = PassThrough" by blast
  from h3' fetch_rule [where url = ?js and cached = "Inr (Some (Response ''cached script'' 200))"
      and network = "Inl ''Failed to fetch''" and response = "Response ''cached script'' 200"]
  have c3: "fetch_listener ?js (Inr (Some (Response ''cached script'' 200)))
      (Inl ''Failed to fetch'') = FromCache (Response ''cached script'' 200)" by blast
  from h4 fetch_rule [where url = ?ico and cached = "Inr None"
      and network = "Inr (Response ''icon'' 200)" and response = "Response ''icon'' 200"]
  have c4: "fetch_listener ?ico (Inr None) (Inr (Response ''icon'' 200))
      = FromNetwork (Response ''icon'' 200)" by blast
  from h4 fetch_rule [where url = ?ico and cached = "Inr None"
      and network = "Inl ''Failed to fetch''" and error = "''Failed to fetch''"]
  have c5: "fetch_listener ?ico (Inr None) (Inl ''Failed to fetch'')
      = Synthetic (Response ''Network error'' 408)" by blast
  from h1 h2 h3 c1 c2 c3 c4 c5 show ?thesis by blast
qed

subsection \<open>Push payload\<close>

















subsection \<open>Reading back what was written\<close>













lemma startsWith_append [simp]: "startsWith (p @ rest) p"
  by (induction p) auto







lemma ends_number_comma [simp]: "ends_number (CHR '','' # rest)"
  by (simp add: ends_number_def is_digit_def)










end
